theory Spec2Isabelle
  imports Main "HOL-Library.Multiset" "HOL-Library.Char_ord" "HOL-Library.List_Lexorder"
    "HOL-Library.Word"
begin

section \<open>Exceptions\<close>

text \<open>
  The exceptions that \<^verbatim>\<open>data_prep_utils/dataset.py\<close> can raise, as values.
  \<open>is_ValueError\<close> is Python's \<^verbatim>\<open>isinstance(e, ValueError)\<close> on these classes:
  none of the others derives from \<^verbatim>\<open>ValueError\<close>.
\<close>

datatype error =
    AttributeError
  | AssertionError
  | KeyError
  | TypeError
  | ValueError
  | IndexError
  | OSError
  | RuntimeError
  | NotImplementedError

fun is_ValueError :: "error \<Rightarrow> bool" where
  "is_ValueError ValueError = True"
| "is_ValueError _ = False"

section \<open>DataLoaderChain\<close>

text \<open>
  A source handed to \<^verbatim>\<open>DataLoaderChain\<close> is an iterable with a declared length:
  \<open>declared_len\<close> is what \<^verbatim>\<open>len(loader)\<close> returns, \<open>items\<close> is what one pass over
  \<^verbatim>\<open>iter(loader)\<close> produces before \<^verbatim>\<open>StopIteration\<close>. Nothing ties the two together.
\<close>

record 'a source =
  declared_len :: nat
  items :: "'a list"

text \<open>
  The value assigned to the \<^verbatim>\<open>loaders\<close> property: a tuple of sources, or any other
  object (of which the setter only reads the type name).
\<close>

datatype 'a loaders_value = Tuple "'a source list" | Other string

text \<open>The two private fields \<^verbatim>\<open>__loaders\<close> and \<^verbatim>\<open>__length\<close>.\<close>

record 'a chain =
  loaders :: "'a source list"
  length_field :: nat

text \<open>The class attributes \<^verbatim>\<open>__loaders = ()\<close> and \<^verbatim>\<open>__length = 0\<close>.\<close>

definition chain_class_defaults :: "'a chain" where
  "chain_class_defaults = \<lparr>loaders = [], length_field = 0\<rparr>"

text \<open>The property setter (lines 331--336).\<close>

definition set_loaders :: "'a loaders_value \<Rightarrow> 'a chain \<Rightarrow> error + 'a chain" where
  "set_loaders v self =
     (case v of
        Other tyname \<Rightarrow> Inl TypeError
      | Tuple ls \<Rightarrow> Inr (self\<lparr>loaders := ls, length_field := sum_list (map declared_len ls)\<rparr>))"

text \<open>\<^verbatim>\<open>__init__(self, *loaders)\<close>: the star arguments always arrive as a tuple.\<close>

definition DataLoaderChain :: "'a source list \<Rightarrow> error + 'a chain" where
  "DataLoaderChain ls = set_loaders (Tuple ls) chain_class_defaults"

definition chain_length :: "'a chain \<Rightarrow> nat" where
  "chain_length self = length_field self"

text \<open>\<^verbatim>\<open>__len__\<close> returns the \<^verbatim>\<open>length\<close> property.\<close>

definition chain_len :: "'a chain \<Rightarrow> nat" where
  "chain_len self = chain_length self"

text \<open>
  \<^verbatim>\<open>__getitem__\<close> raises at once. The result pairs the outcome with the object as the
  call leaves it.
\<close>

definition chain_getitem :: "'a chain \<Rightarrow> 'k \<Rightarrow> (error + 'a) \<times> 'a chain" where
  "chain_getitem self item = (Inl NotImplementedError, self)"

subsection \<open>Iteration\<close>

text \<open>
  \<^verbatim>\<open>random.randrange(n)\<close> for an integer \<open>n\<close>: \<^verbatim>\<open>ValueError\<close> on an empty range,
  otherwise some index below \<open>n\<close>. The generator's choice is the raw draw \<open>r\<close>; every
  index below \<open>n\<close> is \<open>r mod n\<close> for some \<open>r\<close>.
\<close>

definition randrange :: "nat \<Rightarrow> nat \<Rightarrow> error + nat" where
  "randrange r n = (if n = 0 then Inl ValueError else Inr (r mod n))"

text \<open>\<^verbatim>\<open>available.pop(idx)\<close> for an index in range.\<close>

definition pop :: "nat \<Rightarrow> 'b list \<Rightarrow> 'b list" where
  "pop idx xs = take idx xs @ drop (Suc idx) xs"

text \<open>
  One pass through the body of \<^verbatim>\<open>while True\<close> (lines 346--353) after the draw. A
  live iterator is the list of items it has still to produce; \<^verbatim>\<open>next\<close> takes the head
  or signals \<^verbatim>\<open>StopIteration\<close> on the empty list. The state is the pair
  \<^verbatim>\<open>(available, len_available)\<close>. An index outside \<^verbatim>\<open>available\<close> would raise
  \<^verbatim>\<open>IndexError\<close> out of the generator.
\<close>

datatype 'a step_result =
    Yield 'a "'a list list" nat
  | Removed "'a list list" nat
  | Return
  | Raise error

definition step :: "nat \<Rightarrow> 'a list list \<Rightarrow> nat \<Rightarrow> 'a step_result" where
  "step idx available len_available =
     (if idx < length available then
        (case available ! idx of
           x # rest \<Rightarrow> Yield x (available[idx := rest]) len_available
         | [] \<Rightarrow>
             (let available' = pop idx available;
                  len_available' = len_available - 1
              in if len_available' = 0 then Return else Removed available' len_available'))
      else Raise IndexError)"

text \<open>
  The loop. \<open>rnd k\<close> is the raw value of the \<open>k\<close>-th draw. The result is the list of
  yielded items and how the generator ended: \<open>None\<close> for the \<^verbatim>\<open>return\<close>,
  \<open>Some e\<close> for an exception leaving it.
\<close>

function drain :: "(nat \<Rightarrow> nat) \<Rightarrow> nat \<Rightarrow> 'a list list \<Rightarrow> nat \<Rightarrow> 'a list \<times> error option" where
  "drain rnd k available len_available =
     (case randrange (rnd k) len_available of
        Inl e \<Rightarrow> ([], Some e)
      | Inr idx \<Rightarrow>
          (case step idx available len_available of
             Yield x available' n' \<Rightarrow>
               (case drain rnd (Suc k) available' n' of (ys, r) \<Rightarrow> (x # ys, r))
           | Removed available' n' \<Rightarrow> drain rnd (Suc k) available' n'
           | Return \<Rightarrow> ([], None)
           | Raise e \<Rightarrow> ([], Some e)))"
  by pat_completeness auto

lemma sum_list_pop:
  fixes f :: "'b \<Rightarrow> nat"
  shows "idx < length xs \<Longrightarrow>
    sum_list (map f (pop idx xs)) + f (xs ! idx) = sum_list (map f xs)"
proof (induction xs arbitrary: idx)
  case Nil
  then show ?case by simp
next
  case (Cons x xs)
  show ?case
  proof (cases idx)
    case 0
    then show ?thesis by (simp add: pop_def)
  next
    case (Suc j)
    with Cons.prems have "j < length xs" by simp
    from Cons.IH [OF this] Suc show ?thesis by (simp add: pop_def)
  qed
qed

lemma sum_list_map_update:
  fixes f :: "'b \<Rightarrow> nat"
  shows "idx < length xs \<Longrightarrow>
    sum_list (map f (xs[idx := y])) + f (xs ! idx) = sum_list (map f xs) + f y"
proof (induction xs arbitrary: idx)
  case Nil
  then show ?case by simp
next
  case (Cons x xs)
  show ?case
  proof (cases idx)
    case 0
    then show ?thesis by simp
  next
    case (Suc j)
    with Cons.prems have "j < length xs" by simp
    from Cons.IH [OF this] Suc show ?thesis by simp
  qed
qed

lemma step_Yield_measure:
  assumes "step idx available n = Yield x available' n'"
  shows "sum_list (map length available') + n' < sum_list (map length available) + n"
proof -
  from assms have lt: "idx < length available"
    by (auto simp: step_def split: if_splits)
  with assms obtain rest where r: "available ! idx = x # rest"
    and av: "available' = available[idx := rest]" and n: "n' = n"
    by (auto simp: step_def Let_def split: list.splits if_splits)
  from sum_list_map_update [OF lt, of length rest] r av
  have "sum_list (map length available') + Suc (length rest)
      = sum_list (map length available) + length rest"
    by simp
  with n show ?thesis by simp
qed

lemma step_Removed_measure:
  assumes "0 < n" and "step idx available n = Removed available' n'"
  shows "sum_list (map length available') + n' < sum_list (map length available) + n"
proof -
  from assms have lt: "idx < length available"
    by (auto simp: step_def split: if_splits)
  with assms have r: "available ! idx = []"
    and av: "available' = pop idx available" and n: "n' = n - 1"
    by (auto simp: step_def Let_def split: list.splits if_splits)
  from sum_list_pop [OF lt, of length] r av
  have "sum_list (map length available') = sum_list (map length available)"
    by simp
  with n assms(1) show ?thesis by simp
qed

termination drain
proof (relation "measure (\<lambda>(rnd, k, available, n). sum_list (map length available) + n)")
  show "wf (measure (\<lambda>(rnd, k, available, n). sum_list (map length available) + n))"
    by (rule wf_measure)
next
  fix rnd :: "nat \<Rightarrow> nat" and k :: nat and available :: "'a list list" and len_available idx x
    and available' n'
  assume "randrange (rnd k) len_available = Inr idx"
    and s: "step idx available len_available = Yield x available' n'"
  from step_Yield_measure [OF s]
  show "((rnd, Suc k, available', n'), (rnd, k, available, len_available))
      \<in> measure (\<lambda>(rnd, k, available, n). sum_list (map length available) + n)"
    by simp
next
  fix rnd :: "nat \<Rightarrow> nat" and k :: nat and available :: "'a list list" and len_available idx
    and available' n'
  assume r: "randrange (rnd k) len_available = Inr idx"
    and s: "step idx available len_available = Removed available' n'"
  from r have "0 < len_available"
    by (simp add: randrange_def split: if_splits)
  from step_Removed_measure [OF this s]
  show "((rnd, Suc k, available', n'), (rnd, k, available, len_available))
      \<in> measure (\<lambda>(rnd, k, available, n). sum_list (map length available) + n)"
    by simp
qed

declare drain.simps [simp del]

text \<open>
  \<^verbatim>\<open>__iter__\<close> (lines 342--353): a fresh iterator per configured source, then the
  loop. The object itself is not assigned to; it is returned as the call leaves it.
\<close>

definition chain_iter :: "(nat \<Rightarrow> nat) \<Rightarrow> 'a chain \<Rightarrow> ('a list \<times> error option) \<times> 'a chain" where
  "chain_iter rnd self =
     (let available = map items (loaders self);
          len_available = length available
      in (drain rnd 0 available len_available, self))"

section \<open>Tables\<close>

text \<open>
  The stacked box array \<^verbatim>\<open>rows[label_bbox].values\<close> has one dtype, that of the four
  box columns: \<^verbatim>\<open>float64\<close> as soon as one of them holds a NaN or a fraction,
  \<^verbatim>\<open>int64\<close> when all hold integers. A dtype is given by its elements \<open>'n\<close> and its
  elementwise \<^verbatim>\<open>+\<close>, \<^verbatim>\<open>-\<close> and \<^verbatim>\<open>!=\<close>; the cells of the box columns are taken
  to be elements of that dtype already.
\<close>

record 'n dtype =
  dt_add :: "'n \<Rightarrow> 'n \<Rightarrow> 'n"
  dt_sub :: "'n \<Rightarrow> 'n \<Rightarrow> 'n"
  dt_ne :: "'n \<Rightarrow> 'n \<Rightarrow> bool"

text \<open>\<^verbatim>\<open>int64\<close>: the integers modulo \<open>2^64\<close>; addition and subtraction wrap around.\<close>

definition int64_dtype :: "64 word dtype" where
  "int64_dtype = \<lparr>dt_add = (\<lambda>a b. a + b), dt_sub = (\<lambda>a b. a - b), dt_ne = (\<lambda>a b. a \<noteq> b)\<rparr>"

text \<open>
  \<^verbatim>\<open>float64\<close>, IEEE 754 binary64. Every finite double is an integer multiple of the
  smallest subnormal \<open>2^-1074\<close>: \<open>Finite k\<close> is the double \<open>k * 2^-1074\<close> (the two
  zeros are not told apart, as \<^verbatim>\<open>==\<close> does not). A sum is the exact sum rounded to 53
  significant bits, ties to even, and infinite from \<open>2^1024\<close> on; infinities of
  opposite sign add to NaN, which absorbs and differs from everything, itself included.
\<close>

datatype float64 = Finite int | PInf | NInf | NaN

text \<open>The number of bits of a natural number.\<close>

fun bitlen :: "nat \<Rightarrow> nat" where
  "bitlen n = (if n = 0 then 0 else Suc (bitlen (n div 2)))"

declare bitlen.simps [simp del]

text \<open>\<open>a / 2^s\<close> rounded to the nearest integer, a tie going to the even one.\<close>

definition round_half_even :: "nat \<Rightarrow> nat \<Rightarrow> nat" where
  "round_half_even a s =
     (let q = a div 2 ^ s; r = a mod 2 ^ s
      in if 2 * r < 2 ^ s then q
         else if 2 ^ s < 2 * r then q + 1
         else if even q then q else q + 1)"

text \<open>An integer rounded to 53 significant bits.\<close>

definition round53 :: "int \<Rightarrow> int" where
  "round53 k =
     (let a = nat \<bar>k\<bar>;
          s = bitlen a - 53;
          m = round_half_even a s * 2 ^ s
      in if k < 0 then - int m else int m)"

definition emin :: nat where
  "emin = 1074"

definition emax :: nat where
  "emax = 1024"

definition round_f64 :: "int \<Rightarrow> float64" where
  "round_f64 k =
     (let m = round53 k
      in if 2 ^ (emax + emin) \<le> \<bar>m\<bar> then (if k < 0 then NInf else PInf) else Finite m)"

fun f64_add :: "float64 \<Rightarrow> float64 \<Rightarrow> float64" where
  "f64_add (Finite a) (Finite b) = round_f64 (a + b)"
| "f64_add NaN _ = NaN"
| "f64_add _ NaN = NaN"
| "f64_add PInf NInf = NaN"
| "f64_add NInf PInf = NaN"
| "f64_add PInf _ = PInf"
| "f64_add _ PInf = PInf"
| "f64_add NInf _ = NInf"
| "f64_add _ NInf = NInf"

fun f64_neg :: "float64 \<Rightarrow> float64" where
  "f64_neg (Finite a) = Finite (- a)"
| "f64_neg PInf = NInf"
| "f64_neg NInf = PInf"
| "f64_neg NaN = NaN"

definition f64_sub :: "float64 \<Rightarrow> float64 \<Rightarrow> float64" where
  "f64_sub a b = f64_add a (f64_neg b)"

fun f64_ne :: "float64 \<Rightarrow> float64 \<Rightarrow> bool" where
  "f64_ne NaN _ = True"
| "f64_ne _ NaN = True"
| "f64_ne a b = (a \<noteq> b)"

definition float64_dtype :: "float64 dtype" where
  "float64_dtype = \<lparr>dt_add = f64_add, dt_sub = f64_sub, dt_ne = f64_ne\<rparr>"

text \<open>The double whose value is the integer \<open>n\<close> (for \<open>n\<close> that a double can hold).\<close>

definition f64 :: "int \<Rightarrow> float64" where
  "f64 n = Finite (n * 2 ^ emin)"

text \<open>
  A row of the data frame: its index label, the value of the column named by
  \<^verbatim>\<open>label_id\<close>, the value of the column named by \<^verbatim>\<open>label_target\<close> (a class name
  in the table handed in, a class index once the constructor has mapped it), and the
  numerical columns by name. Index labels are integers, as those of the default
  \<^verbatim>\<open>RangeIndex\<close> and of any frame cut from one. Ids and class names are strings, and
  every column that the code selects is taken to exist: the \<^verbatim>\<open>KeyError\<close> of a missing
  column has no place in this type.
\<close>

record ('t, 'n) row =
  rindex :: int
  rid :: string
  rtarget :: 't
  rcols :: "string \<Rightarrow> 'n"

text \<open>A \<^verbatim>\<open>dict\<close> from class names to integers, as the list of its items.\<close>

type_synonym class_dict = "(string \<times> int) list"

definition dict_get :: "class_dict \<Rightarrow> string \<Rightarrow> error + int" where
  "dict_get d k = (case map_of d k of None \<Rightarrow> Inl KeyError | Some v \<Rightarrow> Inr v)"

definition dict_set :: "string \<Rightarrow> int \<Rightarrow> class_dict \<Rightarrow> class_dict" where
  "dict_set k v d = (if k \<in> fst ` set d then map (\<lambda>(a, b). if a = k then (a, v) else (a, b)) d
                     else d @ [(k, v)])"

definition dict_len :: "class_dict \<Rightarrow> nat" where
  "dict_len d = length (remdups (map fst d))"

text \<open>Applying a function that may raise to each element in turn: the first error wins.\<close>

fun traverse :: "('a \<Rightarrow> error + 'b) \<Rightarrow> 'a list \<Rightarrow> error + 'b list" where
  "traverse f [] = Inr []"
| "traverse f (x # xs) =
     (case f x of
        Inl e \<Rightarrow> Inl e
      | Inr y \<Rightarrow> (case traverse f xs of Inl e \<Rightarrow> Inl e | Inr ys \<Rightarrow> Inr (y # ys)))"

text \<open>
  pandas' \<^verbatim>\<open>drop_duplicates()\<close> and \<^verbatim>\<open>unique()\<close>: the first occurrence of each value is
  kept, in order of appearance.
\<close>

fun drop_duplicates :: "'a list \<Rightarrow> 'a list" where
  "drop_duplicates [] = []"
| "drop_duplicates (x # xs) = x # drop_duplicates (filter (\<lambda>y. y \<noteq> x) xs)"

definition unique :: "'a list \<Rightarrow> 'a list" where
  "unique xs = drop_duplicates xs"

text \<open>
  A Python list read at an integer position: positions from \<open>-len\<close> up to \<open>-1\<close>
  address the list from its end, anything outside \<open>[-len, len)\<close> raises.
\<close>

definition list_get :: "'a list \<Rightarrow> int \<Rightarrow> error + 'a" where
  "list_get xs i =
     (if 0 \<le> i \<and> i < int (length xs) then Inr (xs ! nat i)
      else if i < 0 \<and> - int (length xs) \<le> i then Inr (xs ! nat (int (length xs) + i))
      else Inl IndexError)"

section \<open>Path resolution\<close>

definition startswith :: "string \<Rightarrow> string \<Rightarrow> bool" where
  "startswith s p = (take (length p) s = p)"

definition endswith :: "string \<Rightarrow> string \<Rightarrow> bool" where
  "endswith s p = (length p \<le> length s \<and> drop (length s - length p) s = p)"

text \<open>\<^verbatim>\<open>os.path.join(a, b)\<close> of \<^verbatim>\<open>posixpath\<close>, for two arguments.\<close>

definition path_join :: "string \<Rightarrow> string \<Rightarrow> string" where
  "path_join a b =
     (if startswith b ''/'' then b
      else if a = [] \<or> endswith a ''/'' then a @ b
      else a @ ''/'' @ b)"

text \<open>
  \<^verbatim>\<open>os.path.expanduser\<close>: a path that does not begin with \<^verbatim>\<open>~\<close> is returned as it
  is; what the others become depends on the process environment, \<open>userhome\<close>.
\<close>

definition expanduser :: "(string \<Rightarrow> string) \<Rightarrow> string \<Rightarrow> string" where
  "expanduser userhome path = (if \<not> startswith path ''~'' then path else userhome path)"

text \<open>Python's \<^verbatim>\<open>a or b\<close> on strings: the empty string is false.\<close>

definition str_or :: "string \<Rightarrow> string \<Rightarrow> string" where
  "str_or a b = (if a \<noteq> [] then a else b)"

text \<open>
  Line 106 (and 195): \<^verbatim>\<open>assert extension.startswith('.') or extension is None\<close>.
  The left operand is evaluated first: on \<^verbatim>\<open>None\<close> the attribute lookup raises before
  \<^verbatim>\<open>extension is None\<close> is reached. When the assertion passes, the extension is a
  string, which the rest of the constructor uses.
\<close>

definition check_extension :: "string option \<Rightarrow> error + string" where
  "check_extension extension =
     (case extension of
        None \<Rightarrow> Inl AttributeError
      | Some ext \<Rightarrow>
          if startswith ext ''.'' \<or> extension = None then Inr ext else Inl AssertionError)"

text \<open>
  Lines 107--113 (and 196--202) on one value of the id column. \<open>root\<close> is the root
  after \<^verbatim>\<open>expanduser\<close>.
\<close>

definition resolve_id :: "string option \<Rightarrow> string option \<Rightarrow> string \<Rightarrow> string \<Rightarrow> string" where
  "resolve_id root extension ext x =
     (if root \<noteq> None \<or> extension \<noteq> None then
        (case root of
           Some r \<Rightarrow> path_join r (str_or (x @ ext) [])
         | None \<Rightarrow> x @ ext)
      else x)"

text \<open>
  Lines 115--117 (and 204--206): the sorted distinct class names, and the dictionary
  built from them when none is given. \<open>sort\<close> on strings compares them
  lexicographically by character code, as \<^verbatim>\<open>sorted\<close> does on \<^verbatim>\<open>str\<close>.
\<close>

definition sorted_classes :: "string list \<Rightarrow> string list" where
  "sorted_classes targets = sort (unique targets)"

definition enumerate_dict :: "string list \<Rightarrow> class_dict" where
  "enumerate_dict classes =
     fold (\<lambda>(i, cls_name) d. dict_set cls_name (int i) d) (enumerate 0 classes) []"

section \<open>ImageWithPandas\<close>

record image_with_pandas =
  samples :: "(string \<times> int) list"
  classes :: "string list"
  class_to_idx :: class_dict
  num_classes :: nat

text \<open>
  \<^verbatim>\<open>ImageWithPandas.__init__\<close> (lines 102--126). The transforms and the loader are
  stored and not called; they are left out.
\<close>

definition ImageWithPandas ::
  "(string \<Rightarrow> string) \<Rightarrow> (string, 'n) row list \<Rightarrow> string option \<Rightarrow> string option \<Rightarrow>
     class_dict option \<Rightarrow> error + image_with_pandas" where
  "ImageWithPandas userhome dataframe root_arg extension class_to_idx_arg =
     (let samples0 = map (\<lambda>r. (rid r, rtarget r)) dataframe
      in case check_extension extension of
           Inl e \<Rightarrow> Inl e
         | Inr ext \<Rightarrow>
             (let root = map_option (expanduser userhome) root_arg;
                  samples1 = map (\<lambda>(x, t). (resolve_id root extension ext x, t)) samples0;
                  cls = sorted_classes (map snd samples1);
                  c2i = (case class_to_idx_arg of None \<Rightarrow> enumerate_dict cls | Some d \<Rightarrow> d)
              in case traverse (\<lambda>(x, t). case dict_get c2i t of
                                            Inl e \<Rightarrow> Inl e | Inr c \<Rightarrow> Inr (x, c)) samples1 of
                   Inl e \<Rightarrow> Inl e
                 | Inr samples2 \<Rightarrow>
                     Inr \<lparr>samples = drop_duplicates samples2, classes = cls,
                          class_to_idx = c2i, num_classes = dict_len c2i\<rparr>))"

definition ImageWithPandas_len :: "image_with_pandas \<Rightarrow> nat" where
  "ImageWithPandas_len self = length (samples self)"

definition get_labels :: "image_with_pandas \<Rightarrow> int list" where
  "get_labels self = map snd (samples self)"

section \<open>ImageBboxWithPandas\<close>

text \<open>
  The labels of a sample as \<^verbatim>\<open>__getitem__\<close> holds them: the pandas \<^verbatim>\<open>Series\<close> cut
  from the target column, which keeps the index labels of its rows, or a plain sequence
  of integers that a transform gave back.
\<close>

datatype label_seq = Series "(int \<times> int) list" | Plain "int list"

fun seq_len :: "label_seq \<Rightarrow> nat" where
  "seq_len (Series ps) = length ps"
| "seq_len (Plain xs) = length xs"

text \<open>
  \<^verbatim>\<open>torch.tensor(labels, dtype=torch.int)\<close>. To find the shape of a non-empty sequence
  \<^verbatim>\<open>torch.tensor\<close> reads its element at key 0; on a \<^verbatim>\<open>Series\<close> with an integer index
  that is the row labelled 0, so that a series without that label (\<^verbatim>\<open>KeyError\<close>
  inside) or with several (a series again, without end) raises \<^verbatim>\<open>ValueError\<close>. The
  values are then stored as 32-bit integers, and one out of range raises
  \<^verbatim>\<open>RuntimeError\<close>.
\<close>

definition store_int32 :: "int list \<Rightarrow> error + int list" where
  "store_int32 xs =
     (if list_all (\<lambda>x. - (2 ^ 31) \<le> x \<and> x < 2 ^ 31) xs then Inr xs else Inl RuntimeError)"

fun torch_tensor_int :: "label_seq \<Rightarrow> error + int list" where
  "torch_tensor_int (Plain xs) = store_int32 xs"
| "torch_tensor_int (Series ps) =
     (if ps = [] then Inr []
      else if length (filter (\<lambda>p. fst p = 0) ps) = 1 then store_int32 (map snd ps)
      else Inl ValueError)"

text \<open>
  What the albumentations-style transform receives and returns, and what
  \<^verbatim>\<open>__getitem__\<close> returns. The box tensor is either the given boxes or, for a sample
  without boxes, the stack of \<open>n\<close> empty \<open>0\<times>4\<close> tensors.
\<close>

record ('img, 'n) package =
  image :: 'img
  bboxes :: "'n list list"
  labels :: label_seq

datatype 'n box_tensor = Placeholders nat | Boxes "'n list list"

record ('img, 'n) detection_sample =
  out_image :: 'img
  out_labels :: "int list"
  out_boxes :: "'n box_tensor"

record ('img, 'n) image_bbox_with_pandas =
  bbox_samples :: "(int, 'n) row list"
  bbox_ids :: "string list"
  label_bbox :: "string list"
  bbox_class_to_idx :: class_dict
  bbox_num_classes :: nat
  transforms :: "(('img, 'n) package \<Rightarrow> error + ('img, 'n) package) option"
  loader :: "string \<Rightarrow> error + 'img"

text \<open>\<^verbatim>\<open>ImageBboxWithPandas.__init__\<close> (lines 187--213). Rows are not deduplicated.\<close>

definition ImageBboxWithPandas ::
  "(string \<Rightarrow> string) \<Rightarrow> (string, 'n) row list \<Rightarrow> string list \<Rightarrow> string option \<Rightarrow>
     string option \<Rightarrow> class_dict option \<Rightarrow>
     (('img, 'n) package \<Rightarrow> error + ('img, 'n) package) option \<Rightarrow> (string \<Rightarrow> error + 'img) \<Rightarrow>
     error + ('img, 'n) image_bbox_with_pandas" where
  "ImageBboxWithPandas userhome dataframe label_bbox_arg root_arg extension class_to_idx_arg
       transforms_arg loader_arg =
     (if length label_bbox_arg \<noteq> 4 then Inl AssertionError
      else case check_extension extension of
           Inl e \<Rightarrow> Inl e
         | Inr ext \<Rightarrow>
             (let root = map_option (expanduser userhome) root_arg;
                  samples1 = map (\<lambda>r. r\<lparr>rid := resolve_id root extension ext (rid r)\<rparr>) dataframe;
                  cls = sorted_classes (map rtarget samples1);
                  c2i = (case class_to_idx_arg of None \<Rightarrow> enumerate_dict cls | Some d \<Rightarrow> d)
              in case traverse (\<lambda>r. case dict_get c2i (rtarget r) of
                                       Inl e \<Rightarrow> Inl e
                                     | Inr c \<Rightarrow> Inr \<lparr>rindex = rindex r, rid = rid r, rtarget = c,
                                                rcols = rcols r\<rparr>)
                        samples1 of
                   Inl e \<Rightarrow> Inl e
                 | Inr samples2 \<Rightarrow>
                     Inr \<lparr>bbox_samples = samples2,
                          bbox_ids = drop_duplicates (map rid samples2),
                          label_bbox = label_bbox_arg,
                          bbox_class_to_idx = c2i, bbox_num_classes = dict_len c2i,
                          transforms = transforms_arg, loader = loader_arg\<rparr>))"

definition ImageBboxWithPandas_len :: "('img, 'n) image_bbox_with_pandas \<Rightarrow> nat" where
  "ImageBboxWithPandas_len self = length (bbox_ids self)"

text \<open>
  \<^verbatim>\<open>split_with_count\<close> (lines 222--233). \<open>count_of\<close> is the group size that
  \<^verbatim>\<open>groupby(label_id).size()\<close> gives an id; the inner merge pairs every row, in table
  order, with the count of its id, and gives the merged frame a fresh index
  \<open>0, 1, 2, \<dots>\<close>. The constructor does not read the added column.
\<close>

definition count_of :: "('t, 'n) row list \<Rightarrow> string \<Rightarrow> nat" where
  "count_of dataframe x = length (filter (\<lambda>r. rid r = x) dataframe)"

definition reset_index :: "('t, 'n) row list \<Rightarrow> ('t, 'n) row list" where
  "reset_index dataframe = map (\<lambda>(j, r). r\<lparr>rindex := int j\<rparr>) (enumerate 0 dataframe)"

definition merge_count :: "('t, 'n) row list \<Rightarrow> (('t, 'n) row \<times> nat) list" where
  "merge_count dataframe =
     map (\<lambda>r. (r, count_of dataframe (rid r))) (reset_index dataframe)"

definition rows_with_count :: "(('t, 'n) row \<times> nat) list \<Rightarrow> nat \<Rightarrow> ('t, 'n) row list" where
  "rows_with_count merged number = map fst (filter (\<lambda>(r, c). c = number) merged)"

definition split_with_count ::
  "(string \<Rightarrow> string) \<Rightarrow> (string, 'n) row list \<Rightarrow> string list \<Rightarrow> string option \<Rightarrow>
     string option \<Rightarrow> class_dict option \<Rightarrow>
     (('img, 'n) package \<Rightarrow> error + ('img, 'n) package) option \<Rightarrow> (string \<Rightarrow> error + 'img) \<Rightarrow>
     error + ('img, 'n) image_bbox_with_pandas list" where
  "split_with_count userhome dataframe label_bbox_arg root_arg extension class_to_idx_arg
       transforms_arg loader_arg =
     (let merged = merge_count dataframe
      in traverse (\<lambda>number. ImageBboxWithPandas userhome (rows_with_count merged number)
                     label_bbox_arg root_arg extension class_to_idx_arg transforms_arg loader_arg)
           (drop_duplicates (map snd merged)))"

text \<open>
  \<^verbatim>\<open>ImageBboxWithPandas.__getitem__\<close> (lines 239--271), for the dtype \<open>dt\<close> of the box
  columns. \<open>convert_boxes\<close> is the two column assignments of lines 247--248, row by
  row; \<open>any_nan\<close> is \<^verbatim>\<open>(boxes != boxes).any()\<close>.
\<close>

definition convert_boxes :: "'n dtype \<Rightarrow> 'n list list \<Rightarrow> 'n list list" where
  "convert_boxes dt boxes0 =
     (let boxes1 = map (\<lambda>b. b[2 := dt_add dt (b ! 0) (b ! 2)]) boxes0;
          boxes2 = map (\<lambda>b. b[3 := dt_add dt (b ! 1) (b ! 3)]) boxes1
      in boxes2)"

definition any_nan :: "'n dtype \<Rightarrow> 'n list list \<Rightarrow> bool" where
  "any_nan dt boxes = list_ex (\<lambda>b. list_ex (\<lambda>c. dt_ne dt c c) b) boxes"

text \<open>
  Lines 255--258: a configured transform is called on the package and may raise;
  turning its boxes into an array does not change them.
\<close>

definition apply_transforms ::
  "(('img, 'n) package \<Rightarrow> error + ('img, 'n) package) option \<Rightarrow> ('img, 'n) package \<Rightarrow>
     error + ('img, 'n) package" where
  "apply_transforms tr sample = (case tr of None \<Rightarrow> Inr sample | Some t \<Rightarrow> t sample)"

text \<open>
  Lines 261--269: the tensors of the returned record, the labels first.
  \<^verbatim>\<open>torch.stack\<close> of an empty list raises \<^verbatim>\<open>RuntimeError\<close>; the box array becomes
  a tensor of the same values.
\<close>

definition to_tensors :: "('img, 'n) package \<Rightarrow> error + ('img, 'n) detection_sample" where
  "to_tensors sample =
     (case torch_tensor_int (labels sample) of
        Inl e \<Rightarrow> Inl e
      | Inr lbls \<Rightarrow>
          if length (bboxes sample) = 0 then
            (if seq_len (labels sample) = 0 then Inl RuntimeError
             else Inr \<lparr>out_image = image sample, out_labels = lbls,
                       out_boxes = Placeholders (seq_len (labels sample))\<rparr>)
          else Inr \<lparr>out_image = image sample, out_labels = lbls,
                    out_boxes = Boxes (bboxes sample)\<rparr>)"

definition ImageBboxWithPandas_getitem ::
  "'n dtype \<Rightarrow> ('img, 'n) image_bbox_with_pandas \<Rightarrow> int \<Rightarrow> error + ('img, 'n) detection_sample" where
  "ImageBboxWithPandas_getitem dt self index =
     (case list_get (bbox_ids self) index of
        Inl e \<Rightarrow> Inl e
      | Inr image_id \<Rightarrow>
          (let rows = filter (\<lambda>r. rid r = image_id) (bbox_samples self)
           in case loader self image_id of
                Inl e \<Rightarrow> Inl e
              | Inr img \<Rightarrow>
                  (let lbls = Series (map (\<lambda>r. (rindex r, rtarget r)) rows);
                       boxes0 = map (\<lambda>r. map (rcols r) (label_bbox self)) rows;
                       boxes1 = convert_boxes dt boxes0;
                       boxes2 = (if any_nan dt boxes1 then [] else boxes1);
                       sample0 = \<lparr>image = img, bboxes = boxes2, labels = lbls\<rparr>
                   in case apply_transforms (transforms self) sample0 of
                        Inl e \<Rightarrow> Inl e
                      | Inr sample1 \<Rightarrow> to_tensors sample1)))"

text \<open>
  The inverse encoding of one box, as the specification words it: \<open>w = x1 - x0\<close>,
  \<open>h = y1 - y0\<close>, in the same dtype.
\<close>

definition unconvert_box :: "'n dtype \<Rightarrow> 'n list \<Rightarrow> 'n list" where
  "unconvert_box dt b = (b[2 := dt_sub dt (b ! 2) (b ! 0)])[3 := dt_sub dt (b ! 3) (b ! 1)]"

section \<open>Notions used to state the properties\<close>

text \<open>
  The path a constructor called with \<open>root_arg\<close> and the extension \<open>ext\<close> stores for
  the id \<open>x\<close>.
\<close>

definition resolved_id :: "(string \<Rightarrow> string) \<Rightarrow> string option \<Rightarrow> string \<Rightarrow> string \<Rightarrow> string" where
  "resolved_id userhome root_arg ext x =
     resolve_id (map_option (expanduser userhome) root_arg) (Some ext) ext x"

text \<open>
  The 0-based rank of a class name among the names \<open>L\<close>: the number of names of \<open>L\<close>
  that come before it in the lexicographic order of strings by character code.
\<close>

definition label_rank :: "string set \<Rightarrow> string \<Rightarrow> int" where
  "label_rank L l = int (card {l' \<in> L. l' < l})"

text \<open>The class index that a dictionary gives a class name it holds.\<close>

definition class_index :: "class_dict \<Rightarrow> string \<Rightarrow> int" where
  "class_index d t = (case map_of d t of Some c \<Rightarrow> c | None \<Rightarrow> 0)"

text \<open>
  The dictionary a constructor uses: the one handed in, or the one built from the sorted
  class names of the table.
\<close>

definition chosen_dict :: "class_dict option \<Rightarrow> string list \<Rightarrow> class_dict" where
  "chosen_dict class_to_idx_arg targets =
     (case class_to_idx_arg of None \<Rightarrow> enumerate_dict (sorted_classes targets) | Some d \<Rightarrow> d)"

text \<open>
  A row as the detection data set stores it: same index label, resolved id, class index,
  same columns.
\<close>

definition prepared_row ::
  "(string \<Rightarrow> string) \<Rightarrow> string option \<Rightarrow> string \<Rightarrow> class_dict \<Rightarrow> (string, 'n) row \<Rightarrow> (int, 'n) row" where
  "prepared_row userhome root_arg ext d r =
     \<lparr>rindex = rindex r, rid = resolved_id userhome root_arg ext (rid r),
      rtarget = class_index d (rtarget r), rcols = rcols r\<rparr>"

text \<open>
  The rows of a table that make up the group of the image stored under \<open>image_id\<close>, and
  the box of a row as the columns \<open>lb\<close> give it.
\<close>

definition group_rows ::
  "(string \<Rightarrow> string) \<Rightarrow> string option \<Rightarrow> string \<Rightarrow> string \<Rightarrow> ('t, 'n) row list \<Rightarrow> ('t, 'n) row list" where
  "group_rows userhome root_arg ext image_id df =
     filter (\<lambda>r. resolved_id userhome root_arg ext (rid r) = image_id) df"

definition row_box :: "string list \<Rightarrow> ('t, 'n) row \<Rightarrow> 'n list" where
  "row_box lb r = map (rcols r) lb"

text \<open>
  The distinct per-id row counts of a table in order of first appearance, and the rows
  of the merged frame (the table's rows, re-indexed) whose id has a given count.
\<close>

definition counts_observed :: "('t, 'n) row list \<Rightarrow> nat list" where
  "counts_observed df = drop_duplicates (map (\<lambda>r. count_of df (rid r)) df)"

definition bucket :: "('t, 'n) row list \<Rightarrow> nat \<Rightarrow> ('t, 'n) row list" where
  "bucket df number = filter (\<lambda>r. count_of df (rid r) = number) (reset_index df)"

text \<open>
  The label series of a list of rows under a dictionary: index label and class index
  of each row.
\<close>

definition group_series :: "class_dict \<Rightarrow> (string, 'n) row list \<Rightarrow> (int \<times> int) list" where
  "group_series d rows = map (\<lambda>r. (rindex r, class_index d (rtarget r))) rows"

text \<open>The corner encoding of a box \<open>[x, y, w, h]\<close> in a dtype.\<close>

fun corners :: "'n dtype \<Rightarrow> 'n list \<Rightarrow> 'n list" where
  "corners dt [x, y, w, h] = [x, y, dt_add dt x w, dt_add dt y h]"
| "corners dt b = b"

section \<open>Example tables\<close>

text \<open>
  A table of four rows over three classes with one repeated row, and the same rows in
  another order with another row repeated. The numerical columns hold NaN.
\<close>

definition nan_cols :: "string \<Rightarrow> float64" where
  "nan_cols c = NaN"

definition pets_table :: "(string, float64) row list" where
  "pets_table =
     [\<lparr>rindex = 0, rid = ''img1'', rtarget = ''dog'', rcols = nan_cols\<rparr>,
      \<lparr>rindex = 1, rid = ''img2'', rtarget = ''cat'', rcols = nan_cols\<rparr>,
      \<lparr>rindex = 2, rid = ''img1'', rtarget = ''dog'', rcols = nan_cols\<rparr>,
      \<lparr>rindex = 3, rid = ''img3'', rtarget = ''bird'', rcols = nan_cols\<rparr>]"

definition pets_table_shuffled :: "(string, float64) row list" where
  "pets_table_shuffled =
     [\<lparr>rindex = 0, rid = ''img3'', rtarget = ''bird'', rcols = nan_cols\<rparr>,
      \<lparr>rindex = 1, rid = ''img3'', rtarget = ''bird'', rcols = nan_cols\<rparr>,
      \<lparr>rindex = 2, rid = ''img1'', rtarget = ''dog'', rcols = nan_cols\<rparr>,
      \<lparr>rindex = 3, rid = ''img2'', rtarget = ''cat'', rcols = nan_cols\<rparr>]"

definition bbox_names :: "string list" where
  "bbox_names = [''x'', ''y'', ''width'', ''height'']"

text \<open>A loader that returns the path it was given, in place of the decoded image.\<close>

definition path_loader :: "string \<Rightarrow> error + string" where
  "path_loader path = Inr path"

text \<open>One image labelled with two classes, and a dictionary giving both the index 0.\<close>

definition two_class_table :: "(string, float64) row list" where
  "two_class_table =
     [\<lparr>rindex = 0, rid = ''a'', rtarget = ''cat'', rcols = nan_cols\<rparr>,
      \<lparr>rindex = 1, rid = ''a'', rtarget = ''dog'', rcols = nan_cols\<rparr>]"

definition merging_dict :: class_dict where
  "merging_dict = [(''cat'', 0), (''dog'', 0)]"

text \<open>
  A detection table of two images: \<open>p1\<close> with two boxes, \<open>p2\<close> with two rows of which
  one has a NaN coordinate.
\<close>

definition box_cols :: "float64 \<Rightarrow> float64 \<Rightarrow> float64 \<Rightarrow> float64 \<Rightarrow> string \<Rightarrow> float64" where
  "box_cols x y w h c =
     (if c = ''x'' then x else if c = ''y'' then y
      else if c = ''width'' then w else if c = ''height'' then h else NaN)"

definition boxes_table :: "(string, float64) row list" where
  "boxes_table =
     [\<lparr>rindex = 0, rid = ''p1'', rtarget = ''opacity'',
       rcols = box_cols (f64 10) (f64 20) (f64 5) (f64 8)\<rparr>,
      \<lparr>rindex = 1, rid = ''p2'', rtarget = ''opacity'',
       rcols = box_cols (f64 1) (f64 1) (f64 2) (f64 2)\<rparr>,
      \<lparr>rindex = 2, rid = ''p2'', rtarget = ''normal'',
       rcols = box_cols NaN (f64 1) (f64 2) (f64 2)\<rparr>,
      \<lparr>rindex = 3, rid = ''p1'', rtarget = ''opacity'',
       rcols = box_cols (f64 3) (f64 4) (f64 1) (f64 1)\<rparr>]"

text \<open>The detection data set of that table, read with the extension \<open>.png\<close>.\<close>

definition boxes_dataset :: "(string, float64) image_bbox_with_pandas" where
  "boxes_dataset =
     \<lparr>bbox_samples =
        [\<lparr>rindex = 0, rid = ''p1.png'', rtarget = 1,
          rcols = box_cols (f64 10) (f64 20) (f64 5) (f64 8)\<rparr>,
         \<lparr>rindex = 1, rid = ''p2.png'', rtarget = 1,
          rcols = box_cols (f64 1) (f64 1) (f64 2) (f64 2)\<rparr>,
         \<lparr>rindex = 2, rid = ''p2.png'', rtarget = 0,
          rcols = box_cols NaN (f64 1) (f64 2) (f64 2)\<rparr>,
         \<lparr>rindex = 3, rid = ''p1.png'', rtarget = 1,
          rcols = box_cols (f64 3) (f64 4) (f64 1) (f64 1)\<rparr>],
      bbox_ids = [''p1.png'', ''p2.png''],
      label_bbox = bbox_names,
      bbox_class_to_idx = [(''normal'', 0), (''opacity'', 1)],
      bbox_num_classes = 2,
      transforms = None,
      loader = path_loader\<rparr>"

text \<open>
  A transform that hands the image and the boxes back as they are and the labels as a
  plain list, as a transform that zips labels with boxes does.
\<close>

fun series_values :: "label_seq \<Rightarrow> int list" where
  "series_values (Series ps) = map snd ps"
| "series_values (Plain xs) = xs"

definition listing_transform :: "(string, float64) package \<Rightarrow> error + (string, float64) package" where
  "listing_transform sample = Inr (sample\<lparr>labels := Plain (series_values (labels sample))\<rparr>)"

text \<open>
  A table of one image with one box \<open>(2^53, 0, 1, 0)\<close>, and its data set.
\<close>

definition pow53 :: int where
  "pow53 = 2 ^ 53"

definition wide_table :: "(string, float64) row list" where
  "wide_table =
     [\<lparr>rindex = 0, rid = ''w'', rtarget = ''opacity'',
       rcols = box_cols (f64 pow53) (f64 0) (f64 1) (f64 0)\<rparr>]"

definition wide_dataset :: "(string, float64) image_bbox_with_pandas" where
  "wide_dataset =
     \<lparr>bbox_samples =
        [\<lparr>rindex = 0, rid = ''w.png'', rtarget = 0,
          rcols = box_cols (f64 pow53) (f64 0) (f64 1) (f64 0)\<rparr>],
      bbox_ids = [''w.png''],
      label_bbox = bbox_names,
      bbox_class_to_idx = [(''opacity'', 0)],
      bbox_num_classes = 1,
      transforms = None,
      loader = path_loader\<rparr>"

text \<open>
  The doubles \<^verbatim>\<open>0.1\<close> and \<^verbatim>\<open>0.2\<close>: \<open>3602879701896397 * 2^-55\<close> and twice that.
\<close>

definition frac_exp :: nat where
  "frac_exp = 1019"

definition tenth :: float64 where
  "tenth = Finite (3602879701896397 * 2 ^ frac_exp)"

definition fifth :: float64 where
  "fifth = Finite (7205759403792794 * 2 ^ frac_exp)"

text \<open>
  A detection table of six images with 1, 2, 3, 1, 3 and 3 rows, the rows of different
  images interleaved.
\<close>

definition count_row :: "string \<Rightarrow> (string, float64) row" where
  "count_row i = \<lparr>rindex = 0, rid = i, rtarget = ''opacity'',
                  rcols = box_cols (f64 1) (f64 1) (f64 2) (f64 2)\<rparr>"

definition counts_table :: "(string, float64) row list" where
  "counts_table = reset_index (map count_row
     [''a'', ''c'', ''d'', ''b'', ''d'', ''c'', ''e'', ''f'', ''e'', ''d'', ''f'', ''e'', ''f''])"

text \<open>Two single-row images whose ids, one of them absolute, meet under the root \<open>/data\<close>.\<close>

definition absolute_ids_table :: "(string, float64) row list" where
  "absolute_ids_table = reset_index (map count_row [''a'', ''/data/a''])"

section \<open>Properties of the table operations\<close>

subsection \<open>Lists\<close>

lemma set_drop_duplicates [simp]: "set (drop_duplicates xs) = set xs"
  by (induction xs rule: drop_duplicates.induct) auto

lemma distinct_drop_duplicates [simp]: "distinct (drop_duplicates xs)"
  by (induction xs rule: drop_duplicates.induct) auto

lemma length_drop_duplicates: "length (drop_duplicates xs) = card (set xs)"
  using distinct_card [OF distinct_drop_duplicates, of xs] by simp

lemma drop_duplicates_distinct: "distinct xs \<Longrightarrow> drop_duplicates xs = xs"
proof (induction xs)
  case Nil
  then show ?case by simp
next
  case (Cons x xs)
  then have "filter (\<lambda>y. y \<noteq> x) xs = xs"
    by (auto intro: filter_True)
  with Cons show ?case by simp
qed

lemma traverse_Inr:
  "traverse f xs = Inr ys \<Longrightarrow> list_all2 (\<lambda>x y. f x = Inr y) xs ys"
  by (induction xs arbitrary: ys) (auto split: sum.splits)

lemma traverse_Inr_length: "traverse f xs = Inr ys \<Longrightarrow> length ys = length xs"
  by (drule traverse_Inr) (simp add: list_all2_lengthD)

lemma traverse_Inr_map:
  "traverse f xs = Inr ys \<Longrightarrow> ys = map (\<lambda>x. projr (f x)) xs"
  by (induction xs arbitrary: ys) (auto split: sum.splits)

lemma traverse_total:
  "(\<And>x. x \<in> set xs \<Longrightarrow> f x = Inr (g x)) \<Longrightarrow> traverse f xs = Inr (map g xs)"
  by (induction xs) auto

lemma traverse_Inl:
  "traverse f xs = Inl e \<Longrightarrow> \<exists>x \<in> set xs. f x = Inl e"
  by (induction xs) (auto split: sum.splits)

subsection \<open>Class indices\<close>

lemma sorted_classes_eq: "sorted_classes xs = sorted_list_of_set (set xs)"
  unfolding sorted_classes_def unique_def
  by (rule sorted_distinct_set_unique) simp_all

lemma sorted_classes_props [simp]:
  "sorted (sorted_classes xs)" "distinct (sorted_classes xs)" "set (sorted_classes xs) = set xs"
  by (simp_all add: sorted_classes_def unique_def)

lemma dict_set_fresh: "k \<notin> fst ` set d \<Longrightarrow> dict_set k v d = d @ [(k, v)]"
  by (simp add: dict_set_def)

lemma fold_dict_set_fresh:
  "distinct cls \<Longrightarrow> set cls \<inter> fst ` set d = {} \<Longrightarrow>
     fold (\<lambda>(i, cls_name) d. dict_set cls_name (int i) d) (enumerate n cls) d
       = d @ map (\<lambda>(i, c). (c, int i)) (enumerate n cls)"
proof (induction cls arbitrary: n d)
  case Nil
  then show ?case by simp
next
  case (Cons c cls)
  from Cons.prems have fresh: "c \<notin> fst ` set d" by auto
  from Cons.prems have "distinct cls" "set cls \<inter> fst ` set (d @ [(c, int n)]) = {}"
    by auto
  from Cons.IH [OF this, of "Suc n"] fresh show ?case
    by (simp add: dict_set_fresh)
qed

lemma enumerate_dict_distinct:
  "distinct cls \<Longrightarrow> enumerate_dict cls = map (\<lambda>(i, c). (c, int i)) (enumerate 0 cls)"
  using fold_dict_set_fresh [of cls "[]" 0] by (simp add: enumerate_dict_def)

lemma map_of_enumerate_dict:
  assumes "distinct cls" "i < length cls"
  shows "map_of (enumerate_dict cls) (cls ! i) = Some (int i)"
proof -
  have eq: "map (\<lambda>(i, c). (c, int i)) (enumerate 0 cls) = zip cls (map int [0..<length cls])"
    by (rule nth_equalityI) (simp_all add: enumerate_eq_zip)
  have "map_of (zip cls (map int [0..<length cls])) (cls ! i) = Some (map int [0..<length cls] ! i)"
    using assms by (intro map_of_zip_nth) simp_all
  with assms eq show ?thesis
    by (simp add: enumerate_dict_distinct)
qed

lemma dom_enumerate_dict:
  "distinct cls \<Longrightarrow> fst ` set (enumerate_dict cls) = set cls"
  by (force simp: enumerate_dict_distinct enumerate_eq_zip in_set_zip in_set_conv_nth)

text \<open>The rank of an element in a sorted list without repetition.\<close>

lemma rank_in_sorted:
  fixes xs :: "'a::linorder list"
  assumes "sorted xs" "distinct xs" "i < length xs"
  shows "card {y \<in> set xs. y < xs ! i} = i"
proof -
  from assms(1,2) have strict: "sorted_wrt (<) xs"
    by (simp add: strict_sorted_iff)
  have "{y \<in> set xs. y < xs ! i} = set (take i xs)"
  proof (intro set_eqI iffI)
    fix y assume "y \<in> {y \<in> set xs. y < xs ! i}"
    then obtain j where j: "j < length xs" "y = xs ! j" "xs ! j < xs ! i"
      by (auto simp: in_set_conv_nth)
    have "j < i"
    proof (rule ccontr)
      assume "\<not> j < i"
      then have "i \<le> j" by simp
      with assms(1) j(1) have "xs ! i \<le> xs ! j"
        by (simp add: sorted_nth_mono)
      with j(3) show False by simp
    qed
    with j show "y \<in> set (take i xs)"
      by (auto simp: in_set_conv_nth)
  next
    fix y assume "y \<in> set (take i xs)"
    then obtain j where j: "j < i" "j < length xs" "y = xs ! j"
      by (auto simp: in_set_conv_nth)
    with strict assms(3) have "xs ! j < xs ! i"
      by (simp add: sorted_wrt_nth_less)
    with j show "y \<in> {y \<in> set xs. y < xs ! i}" by simp
  qed
  moreover have "card (set (take i xs)) = i"
    using assms(2,3) by (simp add: distinct_card)
  ultimately show ?thesis by simp
qed

lemma enumerate_dict_rank:
  assumes "l \<in> set targets"
  shows "map_of (enumerate_dict (sorted_classes targets)) l
           = Some (int (card {l' \<in> set targets. l' < l}))"
proof -
  let ?cls = "sorted_classes targets"
  from assms have "l \<in> set ?cls" by simp
  then obtain i where i: "i < length ?cls" "l = ?cls ! i"
    by (metis in_set_conv_nth)
  from rank_in_sorted [of ?cls i] i have "card {l' \<in> set targets. l' < l} = i"
    by simp
  with map_of_enumerate_dict [of ?cls i] i show ?thesis by simp
qed

lemma check_extension_Some:
  "check_extension (Some e) = (if startswith e ''.'' then Inr e else Inl AssertionError)"
  by (simp add: check_extension_def)

lemma check_extension_None: "check_extension None = Inl AttributeError"
  by (simp add: check_extension_def)

lemma check_extension_Inr:
  "check_extension extension = Inr ext \<Longrightarrow> extension = Some ext \<and> startswith ext ''.''"
  by (cases extension) (auto simp: check_extension_def split: if_splits)

subsection \<open>The constructors\<close>

lemma traverse_dict_get_pairs:
  "traverse (\<lambda>(x, t). case dict_get d t of Inl e \<Rightarrow> Inl e | Inr c \<Rightarrow> Inr (x, c)) xs = Inr ys \<Longrightarrow>
     ys = map (\<lambda>(x, t). (x, class_index d t)) xs \<and> (\<forall>(x, t) \<in> set xs. map_of d t \<noteq> None)"
  by (induction xs arbitrary: ys)
     (auto simp: dict_get_def class_index_def split: sum.splits option.splits)

lemma traverse_dict_get_pairs_Inl:
  "traverse (\<lambda>(x, t). case dict_get d t of Inl e \<Rightarrow> Inl e | Inr c \<Rightarrow> Inr (x, c)) xs = Inl e \<Longrightarrow>
     e = KeyError"
  by (induction xs) (auto simp: dict_get_def split: sum.splits option.splits)

lemma traverse_dict_get_pairs_total:
  "(\<forall>(x, t) \<in> set xs. map_of d t \<noteq> None) \<Longrightarrow>
   traverse (\<lambda>(x, t). case dict_get d t of Inl e \<Rightarrow> Inl e | Inr c \<Rightarrow> Inr (x, c)) xs
     = Inr (map (\<lambda>(x, t). (x, class_index d t)) xs)"
  by (induction xs) (auto simp: dict_get_def class_index_def split: sum.splits option.splits)

lemma traverse_dict_get_rows:
  "traverse (\<lambda>r. case dict_get d (rtarget r) of
                     Inl e \<Rightarrow> Inl e
                   | Inr c \<Rightarrow> Inr \<lparr>rindex = rindex r, rid = rid r, rtarget = c,
                                  rcols = rcols r\<rparr>) xs = Inr ys \<Longrightarrow>
     ys = map (\<lambda>r. \<lparr>rindex = rindex r, rid = rid r, rtarget = class_index d (rtarget r),
                    rcols = rcols r\<rparr>) xs \<and>
     (\<forall>r \<in> set xs. map_of d (rtarget r) \<noteq> None)"
  by (induction xs arbitrary: ys)
     (auto simp: dict_get_def class_index_def split: sum.splits option.splits)

lemma traverse_dict_get_rows_Inl:
  "traverse (\<lambda>r. case dict_get d (rtarget r) of
                     Inl e \<Rightarrow> Inl e
                   | Inr c \<Rightarrow> Inr \<lparr>rindex = rindex r, rid = rid r, rtarget = c,
                                  rcols = rcols r\<rparr>) xs = Inl e \<Longrightarrow>
     e = KeyError"
  by (induction xs) (auto simp: dict_get_def split: sum.splits option.splits)

lemma traverse_dict_get_rows_total:
  "(\<forall>r \<in> set xs. map_of d (rtarget r) \<noteq> None) \<Longrightarrow>
   traverse (\<lambda>r. case dict_get d (rtarget r) of
                     Inl e \<Rightarrow> Inl e
                   | Inr c \<Rightarrow> Inr \<lparr>rindex = rindex r, rid = rid r, rtarget = c,
                                  rcols = rcols r\<rparr>) xs
     = Inr (map (\<lambda>r. \<lparr>rindex = rindex r, rid = rid r, rtarget = class_index d (rtarget r),
                    rcols = rcols r\<rparr>) xs)"
  by (induction xs) (auto simp: dict_get_def class_index_def split: sum.splits option.splits)

lemma ImageWithPandas_unfold:
  "ImageWithPandas userhome df root_arg extension c2i_arg =
     (case check_extension extension of
        Inl e \<Rightarrow> Inl e
      | Inr ext \<Rightarrow>
          (case traverse (\<lambda>(x, t). case dict_get (chosen_dict c2i_arg (map rtarget df)) t of
                                     Inl e \<Rightarrow> Inl e | Inr c \<Rightarrow> Inr (x, c))
                  (map (\<lambda>r. (resolve_id (map_option (expanduser userhome) root_arg) extension ext
                                (rid r), rtarget r)) df) of
             Inl e \<Rightarrow> Inl e
           | Inr s2 \<Rightarrow>
               Inr \<lparr>samples = drop_duplicates s2, classes = sorted_classes (map rtarget df),
                    class_to_idx = chosen_dict c2i_arg (map rtarget df),
                    num_classes = dict_len (chosen_dict c2i_arg (map rtarget df))\<rparr>))"
  by (simp add: ImageWithPandas_def Let_def chosen_dict_def comp_def cong: sum.case_cong option.case_cong)

lemma ImageWithPandas_Inr:
  assumes "ImageWithPandas userhome df root_arg extension c2i_arg = Inr self"
  shows "\<exists>ext. extension = Some ext \<and> startswith ext ''.'' \<and>
           class_to_idx self = chosen_dict c2i_arg (map rtarget df) \<and>
           classes self = sorted_classes (map rtarget df) \<and>
           (\<forall>r \<in> set df. map_of (class_to_idx self) (rtarget r) \<noteq> None) \<and>
           samples self = drop_duplicates (map (\<lambda>r. (resolved_id userhome root_arg ext (rid r),
                                  class_index (class_to_idx self) (rtarget r))) df)"
proof -
  let ?d = "chosen_dict c2i_arg (map rtarget df)"
  from assms obtain ext where ce: "check_extension extension = Inr ext"
    by (auto simp: ImageWithPandas_unfold split: sum.splits)
  then have ext: "extension = Some ext" "startswith ext ''.''"
    by (auto dest: check_extension_Inr)
  let ?s1 = "map (\<lambda>r. (resolve_id (map_option (expanduser userhome) root_arg) extension ext
                                (rid r), rtarget r)) df"
  from assms ce obtain s2 where
    tr: "traverse (\<lambda>(x, t). case dict_get ?d t of Inl e \<Rightarrow> Inl e | Inr c \<Rightarrow> Inr (x, c)) ?s1 = Inr s2"
    and self: "self = \<lparr>samples = drop_duplicates s2, classes = sorted_classes (map rtarget df),
                      class_to_idx = ?d, num_classes = dict_len ?d\<rparr>"
    by (auto simp: ImageWithPandas_unfold split: sum.splits)
  from traverse_dict_get_pairs [OF tr]
  have s2: "s2 = map (\<lambda>(x, t). (x, class_index ?d t)) ?s1"
    and ok: "\<forall>(x, t) \<in> set ?s1. map_of ?d t \<noteq> None"
    by simp_all
  from s2 have "s2 = map (\<lambda>r. (resolved_id userhome root_arg ext (rid r), class_index ?d (rtarget r))) df"
    by (simp add: comp_def resolved_id_def ext)
  moreover from ok have "\<forall>r \<in> set df. map_of ?d (rtarget r) \<noteq> None" by auto
  ultimately show ?thesis using ext self by simp
qed

lemma ImageBboxWithPandas_unfold:
  "ImageBboxWithPandas userhome df lb root_arg extension c2i_arg tr ld =
     (if length lb \<noteq> 4 then Inl AssertionError
      else case check_extension extension of
        Inl e \<Rightarrow> Inl e
      | Inr ext \<Rightarrow>
          (case traverse (\<lambda>r. case dict_get (chosen_dict c2i_arg (map rtarget df)) (rtarget r) of
                                 Inl e \<Rightarrow> Inl e
                               | Inr c \<Rightarrow> Inr \<lparr>rindex = rindex r, rid = rid r, rtarget = c,
                                  rcols = rcols r\<rparr>)
                  (map (\<lambda>r. r\<lparr>rid := resolve_id (map_option (expanduser userhome) root_arg)
                                       extension ext (rid r)\<rparr>) df) of
             Inl e \<Rightarrow> Inl e
           | Inr s2 \<Rightarrow>
               Inr \<lparr>bbox_samples = s2, bbox_ids = drop_duplicates (map rid s2), label_bbox = lb,
                    bbox_class_to_idx = chosen_dict c2i_arg (map rtarget df),
                    bbox_num_classes = dict_len (chosen_dict c2i_arg (map rtarget df)),
                    transforms = tr, loader = ld\<rparr>))"
  by (simp add: ImageBboxWithPandas_def Let_def chosen_dict_def comp_def cong: sum.case_cong option.case_cong)

text \<open>A row of the detection data set: resolved id, class index, the columns untouched.\<close>

lemma ImageBboxWithPandas_Inr:
  assumes "ImageBboxWithPandas userhome df lb root_arg extension c2i_arg tr ld = Inr self"
  shows "\<exists>ext. extension = Some ext \<and> startswith ext ''.'' \<and> length lb = 4 \<and>
           label_bbox self = lb \<and> transforms self = tr \<and> loader self = ld \<and>
           bbox_class_to_idx self = chosen_dict c2i_arg (map rtarget df) \<and>
           (\<forall>r \<in> set df. map_of (bbox_class_to_idx self) (rtarget r) \<noteq> None) \<and>
           bbox_samples self = map (prepared_row userhome root_arg ext (bbox_class_to_idx self)) df \<and>
           bbox_ids self = drop_duplicates (map (\<lambda>r. resolved_id userhome root_arg ext (rid r)) df)"
proof -
  let ?d = "chosen_dict c2i_arg (map rtarget df)"
  from assms have lb: "length lb = 4"
    by (auto simp: ImageBboxWithPandas_unfold split: if_splits)
  with assms obtain ext where ce: "check_extension extension = Inr ext"
    by (auto simp: ImageBboxWithPandas_unfold split: sum.splits)
  then have ext: "extension = Some ext" "startswith ext ''.''"
    by (auto dest: check_extension_Inr)
  let ?s1 = "map (\<lambda>r. r\<lparr>rid := resolve_id (map_option (expanduser userhome) root_arg)
                                       extension ext (rid r)\<rparr>) df"
  from assms ce lb obtain s2 where
    tr: "traverse (\<lambda>r. case dict_get ?d (rtarget r) of
                                 Inl e \<Rightarrow> Inl e
                               | Inr c \<Rightarrow> Inr \<lparr>rindex = rindex r, rid = rid r, rtarget = c,
                                  rcols = rcols r\<rparr>) ?s1 = Inr s2"
    and self: "self = \<lparr>bbox_samples = s2, bbox_ids = drop_duplicates (map rid s2), label_bbox = lb,
                    bbox_class_to_idx = ?d, bbox_num_classes = dict_len ?d,
                    transforms = tr, loader = ld\<rparr>"
    by (auto simp: ImageBboxWithPandas_unfold split: sum.splits)
  from traverse_dict_get_rows [OF tr]
  have s2: "s2 = map (\<lambda>r. \<lparr>rindex = rindex r, rid = rid r, rtarget = class_index ?d (rtarget r),
                    rcols = rcols r\<rparr>) ?s1"
    and ok: "\<forall>r \<in> set ?s1. map_of ?d (rtarget r) \<noteq> None"
    by simp_all
  from s2 have s2': "s2 = map (prepared_row userhome root_arg ext ?d) df"
    by (simp add: comp_def resolved_id_def prepared_row_def ext)
  have ids: "map (rid \<circ> prepared_row userhome root_arg ext ?d) df
      = map (\<lambda>r. resolved_id userhome root_arg ext (rid r)) df"
    by (simp add: prepared_row_def comp_def)
  from ok have "\<forall>r \<in> set df. map_of ?d (rtarget r) \<noteq> None" by auto
  with ext lb s2' show ?thesis unfolding self by (simp add: ids)
qed

lemma class_index_enumerate_dict:
  "l \<in> set targets \<Longrightarrow>
     class_index (enumerate_dict (sorted_classes targets)) l = label_rank (set targets) l"
  by (simp add: class_index_def label_rank_def enumerate_dict_rank)

lemma chosen_dict_None_defined:
  "r \<in> set df \<Longrightarrow> map_of (chosen_dict None (map rtarget df)) (rtarget r) \<noteq> None"
  using enumerate_dict_rank [of "rtarget r" "map rtarget df"]
  by (simp add: chosen_dict_def)

lemma label_rank_inj: 
  assumes "finite L"
  shows "inj_on (label_rank L) L"
proof (rule inj_onI)
  fix a b assume ab: "a \<in> L" "b \<in> L" "label_rank L a = label_rank L b"
  have less: "card {l' \<in> L. l' < x} < card {l' \<in> L. l' < y}" if "x \<in> L" "x < y" for x y
  proof (rule psubset_card_mono)
    show "finite {l' \<in> L. l' < y}" using assms by simp
    show "{l' \<in> L. l' < x} \<subset> {l' \<in> L. l' < y}" using that by auto
  qed
  show "a = b"
  proof (rule ccontr)
    assume "a \<noteq> b"
    then consider "a < b" | "b < a" by (meson linorder_neqE)
    then show False
      using less [of a b] less [of b a] ab by (cases) (simp_all add: label_rank_def)
  qed
qed

lemma ImageWithPandas_ok:
  assumes "startswith ext ''.''"
    and "\<forall>r \<in> set df. map_of (chosen_dict c2i_arg (map rtarget df)) (rtarget r) \<noteq> None"
  shows "ImageWithPandas userhome df root_arg (Some ext) c2i_arg =
     Inr \<lparr>samples = drop_duplicates
              (map (\<lambda>r. (resolved_id userhome root_arg ext (rid r),
                         class_index (chosen_dict c2i_arg (map rtarget df)) (rtarget r))) df),
          classes = sorted_classes (map rtarget df),
          class_to_idx = chosen_dict c2i_arg (map rtarget df),
          num_classes = dict_len (chosen_dict c2i_arg (map rtarget df))\<rparr>"
proof -
  let ?d = "chosen_dict c2i_arg (map rtarget df)"
  let ?s1 = "map (\<lambda>r. (resolve_id (map_option (expanduser userhome) root_arg) (Some ext) ext
                                (rid r), rtarget r)) df"
  from assms(2) have "\<forall>(x, t) \<in> set ?s1. map_of ?d t \<noteq> None" by auto
  from traverse_dict_get_pairs_total [OF this] assms(1) show ?thesis
    by (simp add: ImageWithPandas_unfold check_extension_Some comp_def resolved_id_def)
qed

lemma ImageBboxWithPandas_ok:
  assumes "startswith ext ''.''" and "length lb = 4"
    and "\<forall>r \<in> set df. map_of (chosen_dict c2i_arg (map rtarget df)) (rtarget r) \<noteq> None"
  shows "ImageBboxWithPandas userhome df lb root_arg (Some ext) c2i_arg tr ld =
     Inr \<lparr>bbox_samples = map (prepared_row userhome root_arg ext
                               (chosen_dict c2i_arg (map rtarget df))) df,
          bbox_ids = drop_duplicates (map (\<lambda>r. resolved_id userhome root_arg ext (rid r)) df),
          label_bbox = lb,
          bbox_class_to_idx = chosen_dict c2i_arg (map rtarget df),
          bbox_num_classes = dict_len (chosen_dict c2i_arg (map rtarget df)),
          transforms = tr, loader = ld\<rparr>"
proof -
  let ?d = "chosen_dict c2i_arg (map rtarget df)"
  let ?s1 = "map (\<lambda>r. r\<lparr>rid := resolve_id (map_option (expanduser userhome) root_arg)
                                       (Some ext) ext (rid r)\<rparr>) df"
  from assms(3) have "\<forall>r \<in> set ?s1. map_of ?d (rtarget r) \<noteq> None" by auto
  from traverse_dict_get_rows_total [OF this] assms(1,2) show ?thesis
    by (simp add: ImageBboxWithPandas_unfold check_extension_Some comp_def resolved_id_def
        prepared_row_def)
qed

lemma ImageWithPandas_Inl:
  assumes "ImageWithPandas userhome df root_arg extension c2i_arg = Inl e"
  shows "(extension = None \<and> e = AttributeError) \<or>
         (\<exists>ext. extension = Some ext \<and> \<not> startswith ext ''.'' \<and> e = AssertionError) \<or>
         (\<exists>ext. extension = Some ext \<and> startswith ext ''.'' \<and> e = KeyError)"
proof (cases extension)
  case None
  with assms show ?thesis
    by (simp add: ImageWithPandas_unfold check_extension_None)
next
  case (Some ext)
  with assms show ?thesis
    by (auto simp: ImageWithPandas_unfold check_extension_Some
        split: if_splits sum.splits dest: traverse_dict_get_pairs_Inl)
qed

lemma ImageBboxWithPandas_Inl:
  assumes "ImageBboxWithPandas userhome df lb root_arg extension c2i_arg tr ld = Inl e"
  shows "(length lb \<noteq> 4 \<and> e = AssertionError) \<or>
         (length lb = 4 \<and> extension = None \<and> e = AttributeError) \<or>
         (\<exists>ext. length lb = 4 \<and> extension = Some ext \<and> \<not> startswith ext ''.'' \<and> e = AssertionError) \<or>
         (\<exists>ext. length lb = 4 \<and> extension = Some ext \<and> startswith ext ''.'' \<and> e = KeyError)"
proof (cases extension)
  case None
  with assms show ?thesis
    by (auto simp: ImageBboxWithPandas_unfold check_extension_None split: if_splits)
next
  case (Some ext)
  with assms show ?thesis
    by (auto simp: ImageBboxWithPandas_unfold check_extension_Some
        split: if_splits sum.splits dest: traverse_dict_get_rows_Inl)
qed

lemma class_index_chosen_None_inj:
  "inj_on (class_index (chosen_dict None targets)) (set targets)"
proof -
  have "inj_on (label_rank (set targets)) (set targets)"
    by (rule label_rank_inj) simp
  moreover have "class_index (chosen_dict None targets) l = label_rank (set targets) l"
    if "l \<in> set targets" for l
    using that by (simp add: chosen_dict_def class_index_enumerate_dict)
  ultimately show ?thesis
    by (simp add: inj_on_def)
qed

lemma card_image_pairs:
  assumes "inj_on c (t ` S)"
  shows "card ((\<lambda>r. (p r, c (t r))) ` S) = card ((\<lambda>r. (p r, t r)) ` S)"
proof -
  have "(\<lambda>r. (p r, c (t r))) ` S = map_prod id c ` ((\<lambda>r. (p r, t r)) ` S)"
    by (auto simp: image_image)
  moreover have "inj_on (map_prod id c) ((\<lambda>r. (p r, t r)) ` S)"
    using assms by (auto simp: inj_on_def)
  ultimately show ?thesis
    by (simp add: card_image)
qed

lemma pets_png:
  "ImageWithPandas id pets_table None (Some ''.png'') None =
     Inr \<lparr>samples = [(''img1.png'', 2), (''img2.png'', 1), (''img3.png'', 0)],
          classes = [''bird'', ''cat'', ''dog''],
          class_to_idx = [(''bird'', 0), (''cat'', 1), (''dog'', 2)],
          num_classes = 3\<rparr>"
  by code_simp

subsection \<open>Doubles\<close>

lemma bitlen_0 [simp]: "bitlen 0 = 0"
  by (simp add: bitlen.simps)

lemma bitlen_double: "0 < n \<Longrightarrow> bitlen (2 * n) = Suc (bitlen n)"
  by (subst bitlen.simps) simp

lemma bitlen_shift: "0 < n \<Longrightarrow> bitlen (n * 2 ^ j) = bitlen n + j"
proof (induction j)
  case 0
  then show ?case by simp
next
  case (Suc j)
  then have "0 < n * 2 ^ j" by simp
  from bitlen_double [OF this] Suc show ?case
    by (simp add: mult.commute mult.left_commute)
qed

lemma bitlen_le: "n < 2 ^ k \<Longrightarrow> bitlen n \<le> k"
proof (induction n arbitrary: k rule: bitlen.induct)
  case (1 n)
  show ?case
  proof (cases "n = 0")
    case True
    then show ?thesis by simp
  next
    case False
    with "1.prems" obtain k' where k: "k = Suc k'"
      by (cases k) auto
    with "1.prems" have "n div 2 < 2 ^ k'" by auto
    from "1.IH" [OF False this] False k show ?thesis
      by (subst bitlen.simps) simp
  qed
qed

lemma round_half_even_exact: "2 ^ s dvd a \<Longrightarrow> round_half_even a s * 2 ^ s = a"
  by (auto simp: round_half_even_def Let_def)

lemma round_half_even_shift:
  "round_half_even (a * 2 ^ j) (s + j) = round_half_even a s"
proof -
  have p: "(2::nat) ^ (s + j) = 2 ^ s * 2 ^ j"
    by (rule power_add)
  have d: "a * 2 ^ j div (2 ^ s * 2 ^ j) = a div 2 ^ s"
    by (rule div_mult_mult2) simp
  have m: "a * 2 ^ j mod (2 ^ s * 2 ^ j) = (a mod 2 ^ s) * 2 ^ j"
    by (rule mod_mult_mult2)
  have a: "2 * (r * 2 ^ j) = (2 * r) * 2 ^ j" for r :: nat
    by (rule mult.assoc [symmetric])
  have c1: "2 * (r * 2 ^ j) < 2 ^ s * 2 ^ j \<longleftrightarrow> 2 * r < 2 ^ s" for r :: nat
    unfolding a by (rule mult_less_cancel2 [THEN trans]) simp
  have c2: "2 ^ s * 2 ^ j < 2 * (r * 2 ^ j) \<longleftrightarrow> 2 ^ s < 2 * r" for r :: nat
    unfolding a by (rule mult_less_cancel2 [THEN trans]) simp
  show ?thesis
    unfolding round_half_even_def Let_def p d m c1 c2 by (rule refl)
qed

lemma round53_shift: "round53 (n * 2 ^ j) = round53 n * 2 ^ j"
proof (cases "n = 0")
  case True
  then show ?thesis
    by (simp add: round53_def round_half_even_def)
next
  case False
  let ?a = "nat \<bar>n\<bar>"
  have pos: "0 < ?a" using False by simp
  have abs: "nat \<bar>n * 2 ^ j\<bar> = ?a * 2 ^ j"
    by (simp add: abs_mult nat_mult_distrib nat_power_eq)
  have neg: "n * 2 ^ j < 0 \<longleftrightarrow> n < 0"
    by (simp add: mult_less_0_iff)
  have bl: "bitlen (?a * 2 ^ j) = bitlen ?a + j"
    using pos by (rule bitlen_shift)
  have mag: "round_half_even (?a * 2 ^ j) (bitlen ?a + j - 53) * 2 ^ (bitlen ?a + j - 53)
      = round_half_even ?a (bitlen ?a - 53) * 2 ^ (bitlen ?a - 53) * 2 ^ j"
  proof (cases "53 \<le> bitlen ?a")
    case True
    then have s: "bitlen ?a + j - 53 = (bitlen ?a - 53) + j" by simp
    show ?thesis
      unfolding s round_half_even_shift by (simp add: power_add)
  next
    case False
    then have z: "bitlen ?a - 53 = 0" by simp
    from False have "bitlen ?a + j - 53 \<le> j" by simp
    then have "(2::nat) ^ (bitlen ?a + j - 53) dvd 2 ^ j"
      by (rule le_imp_power_dvd)
    then have "2 ^ (bitlen ?a + j - 53) dvd ?a * 2 ^ j"
      by (rule dvd_mult)
    from round_half_even_exact [OF this] show ?thesis
      unfolding z by (simp add: round_half_even_def)
  qed
  show ?thesis
    unfolding round53_def Let_def abs neg bl mag
    by (simp add: algebra_simps)
qed

lemma round_half_even_0: "round_half_even a 0 = a"
  by (simp add: round_half_even_def)

lemma round53_small:
  assumes "\<bar>n\<bar> < 2 ^ 53"
  shows "round53 n = n"
proof -
  let ?a = "nat \<bar>n\<bar>"
  have "int ?a < int (2 ^ 53)"
    using assms by (simp only: of_nat_power of_nat_numeral)
  then have "?a < 2 ^ 53" by (simp only: of_nat_less_iff)
  then have "bitlen ?a \<le> 53" by (rule bitlen_le)
  then have z: "bitlen ?a - 53 = 0" by (rule diff_is_0_eq')
  have "(if n < 0 then - int ?a else int ?a) = n" by simp
  then show ?thesis
    unfolding round53_def Let_def z round_half_even_0 by simp
qed

lemma bitlen_ge: "2 ^ k \<le> n \<Longrightarrow> k < bitlen n"
proof (induction k arbitrary: n)
  case 0
  then have "n \<noteq> 0" by auto
  then show ?case by (subst bitlen.simps) simp
next
  case (Suc k)
  then have "2 ^ k \<le> n div 2" by auto
  moreover from Suc.prems have "n \<noteq> 0"
    by (cases "n = 0") simp_all
  ultimately show ?case
    using Suc.IH [of "n div 2"] by (subst bitlen.simps) simp
qed

lemma bitlen_eq: "2 ^ k \<le> n \<Longrightarrow> n < 2 ^ Suc k \<Longrightarrow> bitlen n = Suc k"
  using bitlen_ge [of k n] bitlen_le [of n "Suc k"] by simp

lemma round_f64_scaled:
  "round_f64 (n * 2 ^ emin) =
     (if 2 ^ emax \<le> \<bar>round53 n\<bar> then (if n < 0 then NInf else PInf)
      else Finite (round53 n * 2 ^ emin))"
proof -
  have m: "\<bar>round53 n * 2 ^ emin\<bar> = \<bar>round53 n\<bar> * 2 ^ emin"
    by (simp add: abs_mult)
  have c: "(2::int) ^ (emax + emin) \<le> \<bar>round53 n\<bar> * 2 ^ emin \<longleftrightarrow> 2 ^ emax \<le> \<bar>round53 n\<bar>"
    unfolding power_add by (rule mult_le_cancel_right [THEN trans]) simp
  have neg: "n * 2 ^ emin < 0 \<longleftrightarrow> n < 0"
    by (simp add: mult_less_0_iff)
  show ?thesis
    unfolding round_f64_def Let_def round53_shift m c neg by (rule refl)
qed

lemma f64_add_f64:
  "f64_add (f64 a) (f64 b) =
     (if 2 ^ emax \<le> \<bar>round53 (a + b)\<bar> then (if a + b < 0 then NInf else PInf)
      else f64 (round53 (a + b)))"
  unfolding f64_def f64_add.simps distrib_right [symmetric] round_f64_scaled by (rule refl)

lemma f64_sub_f64:
  "f64_sub (f64 a) (f64 b) =
     (if 2 ^ emax \<le> \<bar>round53 (a - b)\<bar> then (if a - b < 0 then NInf else PInf)
      else f64 (round53 (a - b)))"
proof -
  have "f64_neg (f64 b) = f64 (- b)"
    by (simp add: f64_def)
  then show ?thesis
    unfolding f64_sub_def by (simp only: f64_add_f64) simp
qed

lemma pow53_lt_emax: "(2::int) ^ 53 < 2 ^ emax"
  unfolding emax_def by (rule power_strict_increasing) simp_all

lemma f64_add_exact: "\<bar>a + b\<bar> < 2 ^ 53 \<Longrightarrow> f64_add (f64 a) (f64 b) = f64 (a + b)"
proof -
  assume s: "\<bar>a + b\<bar> < 2 ^ 53"
  with pow53_lt_emax have "\<not> 2 ^ emax \<le> \<bar>a + b\<bar>" by simp
  with s show ?thesis
    by (simp only: f64_add_f64 round53_small if_False)
qed

lemma f64_sub_exact: "\<bar>a - b\<bar> < 2 ^ 53 \<Longrightarrow> f64_sub (f64 a) (f64 b) = f64 (a - b)"
proof -
  assume s: "\<bar>a - b\<bar> < 2 ^ 53"
  with pow53_lt_emax have "\<not> 2 ^ emax \<le> \<bar>a - b\<bar>" by simp
  with s show ?thesis
    by (simp only: f64_sub_f64 round53_small if_False)
qed

lemma f64_inj: "f64 a = f64 b \<longleftrightarrow> a = b"
  by (simp add: f64_def)

lemma round53_tie: "round53 (2 ^ 53 + 1) = 2 ^ 53"
proof -
  have a: "nat \<bar>2 ^ 53 + 1 :: int\<bar> = 2 ^ 53 + 1"
    by simp
  have "bitlen (2 ^ 53 + 1) = Suc 53"
    by (rule bitlen_eq) simp_all
  then have s: "bitlen (2 ^ 53 + 1) - 53 = 1" by simp
  have r: "round_half_even (2 ^ 53 + 1) 1 = 2 ^ 52"
    by (simp add: round_half_even_def)
  show ?thesis
    unfolding round53_def Let_def a s r by simp
qed

lemma f64_add_tie: "f64_add (f64 pow53) (f64 1) = f64 pow53"
  using pow53_lt_emax unfolding pow53_def by (simp only: f64_add_f64 round53_tie) simp

lemma f64_sub_tie: "f64_sub (f64 pow53) (f64 pow53) = f64 0"
  using f64_sub_exact [of pow53 pow53] by simp

lemma f64_zero: "f64_add (f64 0) (f64 0) = f64 0" "f64_sub (f64 0) (f64 0) = f64 0"
  using f64_add_exact [of 0 0] f64_sub_exact [of 0 0] by simp_all

lemma f64_ne_self: "f64_ne c c \<longleftrightarrow> c = NaN"
  by (cases c) simp_all

lemma f64_not_NaN [simp]: "f64 n \<noteq> NaN"
  by (simp add: f64_def)

lemma float64_dtype_simps [simp]:
  "dt_add float64_dtype = f64_add" "dt_sub float64_dtype = f64_sub"
  "dt_ne float64_dtype = f64_ne"
  by (simp_all add: float64_dtype_def)

lemma int64_round_trip: "dt_sub int64_dtype (dt_add int64_dtype x w) x = w"
  by (simp add: int64_dtype_def)

lemma float64_round_trip_int:
  assumes "\<bar>a\<bar> < 2 ^ 52" and "\<bar>b\<bar> < 2 ^ 52"
  shows "dt_add float64_dtype (f64 a) (f64 b) = f64 (a + b)"
    and "dt_sub float64_dtype (dt_add float64_dtype (f64 a) (f64 b)) (f64 a) = f64 b"
proof -
  from assms have s: "\<bar>a + b\<bar> < 2 ^ 53" by simp
  from assms have d: "\<bar>a + b - a\<bar> < 2 ^ 53" by simp
  from f64_add_exact [OF s] show "dt_add float64_dtype (f64 a) (f64 b) = f64 (a + b)"
    by simp
  with f64_sub_exact [OF d]
  show "dt_sub float64_dtype (dt_add float64_dtype (f64 a) (f64 b)) (f64 a) = f64 b"
    by simp
qed

lemma any_nan_float64_iff: "any_nan float64_dtype boxes \<longleftrightarrow> (\<exists>b \<in> set boxes. NaN \<in> set b)"
  by (auto simp: any_nan_def list_ex_iff f64_ne_self)

subsection \<open>Boxes\<close>

lemma length_4E:
  assumes "length b = 4"
  obtains x y w h where "b = [x, y, w, h]"
proof -
  from assms obtain x b1 where 1: "b = x # b1" "length b1 = 3"
    by (cases b) simp_all
  then obtain y b2 where 2: "b1 = y # b2" "length b2 = 2"
    by (cases b1) simp_all
  then obtain w b3 where 3: "b2 = w # b3" "length b3 = 1"
    by (cases b2) simp_all
  then obtain h where 4: "b3 = [h]"
    by (cases b3) simp_all
  from 1 2 3 4 that show thesis by simp
qed

lemma convert_boxes_corners:
  assumes "\<forall>b \<in> set boxes. length b = 4"
  shows "convert_boxes dt boxes = map (corners dt) boxes"
proof -
  have "(b[2 := dt_add dt (b ! 0) (b ! 2)])[3 := dt_add dt ((b[2 := dt_add dt (b ! 0) (b ! 2)]) ! 1)
            ((b[2 := dt_add dt (b ! 0) (b ! 2)]) ! 3)] = corners dt b"
    if "length b = 4" for b :: "'a list"
    using that by (elim length_4E) simp
  with assms show ?thesis
    by (simp add: convert_boxes_def Let_def comp_def)
qed

lemma unconvert_corners:
  assumes "dt_sub dt (dt_add dt x w) x = w" and "dt_sub dt (dt_add dt y h) y = h"
  shows "unconvert_box dt (corners dt [x, y, w, h]) = [x, y, w, h]"
  using assms by (simp add: unconvert_box_def)

lemma corners_keeps_NaN:
  assumes "length b = 4" and "NaN \<in> set b"
  shows "NaN \<in> set (corners float64_dtype b)"
proof -
  from assms(1) obtain x y w h where b: "b = [x, y, w, h]" by (rule length_4E)
  have "f64_add NaN c = NaN" "f64_add c NaN = NaN" for c
    by (cases c; simp)+
  with assms(2) b show ?thesis by auto
qed

subsection \<open>Reading a detection sample\<close>

lemma list_get_Inr_mem: "list_get xs i = Inr x \<Longrightarrow> x \<in> set xs"
  by (auto simp: list_get_def split: if_splits)

lemma filter_prepared_rows:
  "filter (\<lambda>r. rid r = image_id) (map (prepared_row userhome root_arg ext d) df)
     = map (prepared_row userhome root_arg ext d) (group_rows userhome root_arg ext image_id df)"
  by (simp add: filter_map comp_def prepared_row_def group_rows_def)

lemma getitem_unfold:
  assumes C: "ImageBboxWithPandas userhome df lb root_arg (Some ext) c2i_arg tr ld = Inr self"
    and I: "list_get (bbox_ids self) index = Inr image_id"
    and L: "ld image_id = Inr img"
  shows "group_rows userhome root_arg ext image_id df \<noteq> [] \<and>
     ImageBboxWithPandas_getitem dt self index =
       (case apply_transforms tr
          \<lparr>image = img,
           bboxes = (if any_nan dt (map (\<lambda>r. corners dt (row_box lb r))
                                     (group_rows userhome root_arg ext image_id df)) then []
                     else map (\<lambda>r. corners dt (row_box lb r))
                            (group_rows userhome root_arg ext image_id df)),
           labels = Series (group_series (bbox_class_to_idx self)
                      (group_rows userhome root_arg ext image_id df))\<rparr> of
          Inl e \<Rightarrow> Inl e
        | Inr s \<Rightarrow> to_tensors s)"
proof -
  let ?rows = "group_rows userhome root_arg ext image_id df"
  let ?d = "bbox_class_to_idx self"
  from ImageBboxWithPandas_Inr [OF C]
  have lb: "length lb = 4" and f: "label_bbox self = lb" "transforms self = tr" "loader self = ld"
    and s: "bbox_samples self = map (prepared_row userhome root_arg ext ?d) df"
    and ids: "bbox_ids self = drop_duplicates (map (\<lambda>r. resolved_id userhome root_arg ext (rid r)) df)"
    by auto
  from list_get_Inr_mem [OF I] ids have "image_id \<in> (\<lambda>r. resolved_id userhome root_arg ext (rid r)) ` set df"
    by simp
  then have ne: "?rows \<noteq> []"
    by (auto simp: group_rows_def filter_empty_conv)
  have rows: "filter (\<lambda>r. rid r = image_id) (bbox_samples self)
      = map (prepared_row userhome root_arg ext ?d) ?rows"
    unfolding s by (rule filter_prepared_rows)
  have boxes0: "map (\<lambda>r. map (rcols r) lb) (map (prepared_row userhome root_arg ext ?d) ?rows)
      = map (row_box lb) ?rows"
    by (simp add: prepared_row_def row_box_def)
  have lbls: "map (\<lambda>r. (rindex r, rtarget r)) (map (prepared_row userhome root_arg ext ?d) ?rows)
      = group_series ?d ?rows"
    by (simp add: prepared_row_def group_series_def)
  have len4: "\<forall>b \<in> set (map (row_box lb) ?rows). length b = 4"
    using lb by (simp add: row_box_def)
  have conv: "convert_boxes dt (map (row_box lb) ?rows) = map (\<lambda>r. corners dt (row_box lb r)) ?rows"
    using convert_boxes_corners [OF len4] by (simp add: comp_def)
  have main: "ImageBboxWithPandas_getitem dt self index =
       (case apply_transforms tr
          \<lparr>image = img,
           bboxes = (if any_nan dt (map (\<lambda>r. corners dt (row_box lb r)) ?rows) then []
                     else map (\<lambda>r. corners dt (row_box lb r)) ?rows),
           labels = Series (group_series ?d ?rows)\<rparr> of
          Inl e \<Rightarrow> Inl e
        | Inr s \<Rightarrow> to_tensors s)"
    unfolding ImageBboxWithPandas_getitem_def Let_def I sum.case f L rows boxes0 lbls conv
    by (rule refl)
  from ne main show ?thesis by (rule conjI)
qed

subsection \<open>The example data sets\<close>

lemma boxes_dataset_constructed:
  "ImageBboxWithPandas id boxes_table bbox_names None (Some ''.png'') None tr path_loader
     = Inr (boxes_dataset\<lparr>transforms := tr\<rparr>)"
proof -
  have cls: "chosen_dict None (map rtarget boxes_table) = [(''normal'', 0), (''opacity'', 1)]"
    unfolding chosen_dict_def boxes_table_def by code_simp
  have ok: "\<forall>r \<in> set boxes_table. map_of (chosen_dict None (map rtarget boxes_table)) (rtarget r) \<noteq> None"
    using chosen_dict_None_defined by blast
  have h2: "startswith ''.png'' ''.''" and h4: "length bbox_names = 4"
    by (simp_all add: startswith_def bbox_names_def)
  have len: "dict_len [(''normal'', 0), (''opacity'', 1)] = 2"
    by (simp add: dict_len_def)
  show ?thesis
    unfolding ImageBboxWithPandas_ok [OF h2 h4 ok] cls len
    by (simp add: boxes_table_def boxes_dataset_def prepared_row_def resolved_id_def
        resolve_id_def class_index_def)
qed

lemma wide_dataset_constructed:
  "ImageBboxWithPandas id wide_table bbox_names None (Some ''.png'') None None path_loader
     = Inr wide_dataset"
proof -
  have cls: "chosen_dict None (map rtarget wide_table) = [(''opacity'', 0)]"
    unfolding chosen_dict_def wide_table_def by code_simp
  have ok: "\<forall>r \<in> set wide_table. map_of (chosen_dict None (map rtarget wide_table)) (rtarget r) \<noteq> None"
    using chosen_dict_None_defined by blast
  have h2: "startswith ''.png'' ''.''" and h4: "length bbox_names = 4"
    by (simp_all add: startswith_def bbox_names_def)
  have len: "dict_len [(''opacity'', 0)] = 1"
    by (simp add: dict_len_def)
  show ?thesis
    unfolding ImageBboxWithPandas_ok [OF h2 h4 ok] cls len
    by (simp add: wide_table_def wide_dataset_def prepared_row_def resolved_id_def
        resolve_id_def class_index_def)
qed

lemma boxes_dataset_groups:
  "group_rows id None ''.png'' ''p1.png'' boxes_table =
     [\<lparr>rindex = 0, rid = ''p1'', rtarget = ''opacity'',
       rcols = box_cols (f64 10) (f64 20) (f64 5) (f64 8)\<rparr>,
      \<lparr>rindex = 3, rid = ''p1'', rtarget = ''opacity'',
       rcols = box_cols (f64 3) (f64 4) (f64 1) (f64 1)\<rparr>]"
  "group_rows id None ''.png'' ''p2.png'' boxes_table =
     [\<lparr>rindex = 1, rid = ''p2'', rtarget = ''opacity'',
       rcols = box_cols (f64 1) (f64 1) (f64 2) (f64 2)\<rparr>,
      \<lparr>rindex = 2, rid = ''p2'', rtarget = ''normal'',
       rcols = box_cols NaN (f64 1) (f64 2) (f64 2)\<rparr>]"
  by (simp_all add: group_rows_def boxes_table_def resolved_id_def resolve_id_def)

lemma wide_dataset_group:
  "group_rows id None ''.png'' ''w.png'' wide_table = wide_table"
  by (simp add: group_rows_def wide_table_def resolved_id_def resolve_id_def)

lemma box_cols_row:
  "row_box bbox_names \<lparr>rindex = j, rid = i, rtarget = t, rcols = box_cols x y w h\<rparr> = [x, y, w, h]"
  by (simp add: row_box_def bbox_names_def box_cols_def)

subsection \<open>Splitting by box count\<close>

lemma length_reset_index [simp]: "length (reset_index df) = length df"
  by (simp add: reset_index_def)

lemma nth_reset_index: "j < length df \<Longrightarrow> reset_index df ! j = (df ! j)\<lparr>rindex := int j\<rparr>"
  by (simp add: reset_index_def nth_enumerate_eq)

lemma map_rid_reset_index [simp]: "map rid (reset_index df) = map rid df"
  by (rule nth_equalityI) (simp_all add: nth_reset_index)

lemma rid_set_reset_index: "rid ` set (reset_index df) = rid ` set df"
  using map_rid_reset_index [of df] by (metis set_map)

lemma merge_count_counts: "map snd (merge_count df) = map (\<lambda>r. count_of df (rid r)) df"
proof -
  have "map (\<lambda>r. count_of df (rid r)) (reset_index df) = map (\<lambda>r. count_of df (rid r)) df"
    by (rule nth_equalityI) (simp_all add: nth_reset_index)
  then show ?thesis
    by (simp add: merge_count_def comp_def)
qed

lemma rows_with_count_bucket: "rows_with_count (merge_count df) number = bucket df number"
  by (simp add: rows_with_count_def merge_count_def bucket_def filter_map comp_def)

lemma split_with_count_unfold:
  "split_with_count userhome df lb root_arg extension c2i_arg tr ld =
     traverse (\<lambda>number. ImageBboxWithPandas userhome (bucket df number) lb root_arg extension
                 c2i_arg tr ld) (counts_observed df)"
  by (simp add: split_with_count_def Let_def merge_count_counts rows_with_count_bucket
      counts_observed_def)

lemma counts_observed_props:
  "distinct (counts_observed df)"
  "set (counts_observed df) = (\<lambda>r. count_of df (rid r)) ` set df"
  "length (counts_observed df) = card ((\<lambda>r. count_of df (rid r)) ` set df)"
  by (simp_all add: counts_observed_def length_drop_duplicates)

lemma mset_concat_filters:
  "distinct ns \<Longrightarrow>
     mset (concat (map (\<lambda>n. filter (\<lambda>r. f r = n) xs) ns)) = mset (filter (\<lambda>r. f r \<in> set ns) xs)"
proof (induction ns)
  case Nil
  then show ?case by simp
next
  case (Cons n ns)
  then have IH: "mset (concat (map (\<lambda>n. filter (\<lambda>r. f r = n) xs) ns))
      = mset (filter (\<lambda>r. f r \<in> set ns) xs)"
    and n: "n \<notin> set ns"
    by simp_all
  have "filter_mset (\<lambda>r. f r = n) (mset xs) + filter_mset (\<lambda>r. f r \<in> set ns) (mset xs)
      = filter_mset (\<lambda>r. f r = n \<or> f r \<in> set ns) (mset xs)"
    using n by (intro multiset_eqI) auto
  with IH show ?case by simp
qed

lemma buckets_partition:
  "mset (concat (map (bucket df) (counts_observed df))) = mset (reset_index df)"
proof -
  have "mset (concat (map (\<lambda>n. filter (\<lambda>r. count_of df (rid r) = n) (reset_index df))
          (counts_observed df)))
      = mset (filter (\<lambda>r. count_of df (rid r) \<in> set (counts_observed df)) (reset_index df))"
    by (rule mset_concat_filters) (rule counts_observed_props)
  also have "filter (\<lambda>r. count_of df (rid r) \<in> set (counts_observed df)) (reset_index df)
      = reset_index df"
  proof (intro filter_True ballI)
    fix r assume "r \<in> set (reset_index df)"
    then have "rid r \<in> rid ` set df"
      using rid_set_reset_index [of df] by blast
    then show "count_of df (rid r) \<in> set (counts_observed df)"
      by (auto simp: counts_observed_props)
  qed
  finally show ?thesis
    by (simp add: bucket_def [abs_def])
qed

lemma bucket_unique:
  assumes "r \<in> set (reset_index df)"
  shows "\<exists>!i. i < length (counts_observed df) \<and> r \<in> set (bucket df (counts_observed df ! i))"
proof -
  from assms have "rid r \<in> rid ` set df"
    using rid_set_reset_index [of df] by blast
  then have "count_of df (rid r) \<in> set (counts_observed df)"
    by (auto simp: counts_observed_props)
  then obtain i where i: "i < length (counts_observed df)"
    "counts_observed df ! i = count_of df (rid r)"
    by (metis in_set_conv_nth)
  show ?thesis
  proof (rule ex1I [of _ i])
    show "i < length (counts_observed df) \<and> r \<in> set (bucket df (counts_observed df ! i))"
      using i assms by (simp add: bucket_def)
  next
    fix j assume "j < length (counts_observed df) \<and> r \<in> set (bucket df (counts_observed df ! j))"
    then have "j < length (counts_observed df)" "counts_observed df ! j = counts_observed df ! i"
      using i by (simp_all add: bucket_def)
    with i(1) counts_observed_props(1) [of df] show "j = i"
      by (simp add: nth_eq_iff_index_eq)
  qed
qed

lemma resolved_id_no_root: "resolved_id userhome None ext x = x @ ext"
  by (simp add: resolved_id_def resolve_id_def)

lemma card_resolved_no_root:
  "card ((\<lambda>r. resolved_id userhome None ext (rid r)) ` S) = card (rid ` S)"
proof -
  have "(\<lambda>r. resolved_id userhome None ext (rid r)) ` S = (\<lambda>x. x @ ext) ` (rid ` S)"
    by (simp add: resolved_id_no_root image_image)
  moreover have "inj_on (\<lambda>x. x @ ext) (rid ` S)"
    by (simp add: inj_on_def)
  ultimately show ?thesis by (simp add: card_image)
qed

lemma startswith_append_ext:
  assumes "startswith ext ''.''"
  shows "startswith (x @ ext) ''/'' \<longleftrightarrow> startswith x ''/''"
proof (cases x)
  case Nil
  with assms show ?thesis
    by (cases ext) (auto simp: startswith_def)
next
  case (Cons c cs)
  then show ?thesis by (simp add: startswith_def)
qed

lemma path_join_relative:
  "\<not> startswith b ''/'' \<Longrightarrow>
     path_join a b = (if a = [] \<or> endswith a ''/'' then a else a @ ''/'') @ b"
  by (simp add: path_join_def)

lemma resolved_id_inj_relative:
  assumes "startswith ext ''.''"
  shows "inj_on (resolved_id userhome root_arg ext) {x. \<not> startswith x ''/''}"
proof (cases root_arg)
  case None
  then show ?thesis
    by (simp add: inj_on_def resolved_id_no_root)
next
  case (Some r)
  let ?p = "(if expanduser userhome r = [] \<or> endswith (expanduser userhome r) ''/''
             then expanduser userhome r else expanduser userhome r @ ''/'')"
  have "resolved_id userhome root_arg ext x = ?p @ x @ ext" if "\<not> startswith x ''/''" for x
  proof -
    from that assms have "\<not> startswith (x @ ext) ''/''"
      by (simp add: startswith_append_ext)
    moreover have "str_or (x @ ext) [] = x @ ext"
      by (simp add: str_or_def)
    ultimately show ?thesis
      using Some by (simp add: resolved_id_def resolve_id_def path_join_relative)
  qed
  then show ?thesis
    by (simp add: inj_on_def)
qed

lemma card_resolved_relative:
  assumes "startswith ext ''.''" and "\<forall>r \<in> S. \<not> startswith (rid r) ''/''"
  shows "card ((\<lambda>r. resolved_id userhome root_arg ext (rid r)) ` S) = card (rid ` S)"
proof -
  have "(\<lambda>r. resolved_id userhome root_arg ext (rid r)) ` S
      = resolved_id userhome root_arg ext ` (rid ` S)"
    by (simp add: image_image)
  moreover have "inj_on (resolved_id userhome root_arg ext) (rid ` S)"
    using assms(2) by (intro inj_on_subset [OF resolved_id_inj_relative [OF assms(1)]]) auto
  ultimately show ?thesis by (simp add: card_image)
qed

lemma split_with_count_ok:
  assumes "startswith ext ''.''" and "length lb = 4"
  shows "\<exists>dss. split_with_count userhome df lb root_arg (Some ext) None tr ld = Inr dss"
proof -
  let ?f = "\<lambda>n. ImageBboxWithPandas userhome (bucket df n) lb root_arg (Some ext) None tr ld"
  let ?g = "\<lambda>n. \<lparr>bbox_samples = map (prepared_row userhome root_arg ext
                               (chosen_dict None (map rtarget (bucket df n)))) (bucket df n),
          bbox_ids = drop_duplicates
                       (map (\<lambda>r. resolved_id userhome root_arg ext (rid r)) (bucket df n)),
          label_bbox = lb,
          bbox_class_to_idx = chosen_dict None (map rtarget (bucket df n)),
          bbox_num_classes = dict_len (chosen_dict None (map rtarget (bucket df n))),
          transforms = tr, loader = ld\<rparr>"
  have "?f n = Inr (?g n)" for n
    using chosen_dict_None_defined
    by (intro ImageBboxWithPandas_ok assms) blast
  then have "traverse ?f (counts_observed df) = Inr (map ?g (counts_observed df))"
    by (intro traverse_total)
  then show ?thesis
    unfolding split_with_count_unfold by (rule exI)
qed

lemma card_image_list: "card (f ` set xs) = length (remdups (map f xs))"
proof -
  have "length (remdups (map f xs)) = card (set (map f xs))"
    by (rule length_remdups_card_conv)
  then show ?thesis by simp
qed

lemma counts_table_counts: "counts_observed counts_table = [1, 2, 3]"
  by (simp add: counts_observed_def counts_table_def reset_index_def count_of_def count_row_def)

lemma counts_table_buckets:
  "map rid (bucket counts_table (Suc 0)) = [''a'', ''b'']"
  "map rid (bucket counts_table 2) = [''c'', ''c'']"
  "map rid (bucket counts_table 3) = [''d'', ''d'', ''e'', ''f'', ''e'', ''d'', ''f'', ''e'', ''f'']"
  by (simp_all add: bucket_def counts_table_def reset_index_def count_of_def count_row_def)

lemma absolute_ids_counts: "counts_observed absolute_ids_table = [1]"
  by (simp add: counts_observed_def absolute_ids_table_def reset_index_def count_of_def
      count_row_def)

lemma absolute_ids_bucket: "bucket absolute_ids_table (Suc 0) = absolute_ids_table"
  by (simp add: bucket_def absolute_ids_table_def reset_index_def count_of_def count_row_def)

lemma length_3E:
  assumes "length xs = 3"
  obtains a b c where "xs = [a, b, c]"
proof -
  from assms obtain a xs1 where 1: "xs = a # xs1" "length xs1 = 2"
    by (cases xs) simp_all
  then obtain b xs2 where 2: "xs1 = b # xs2" "length xs2 = 1"
    by (cases xs1) simp_all
  then obtain c where 3: "xs2 = [c]"
    by (cases xs2) simp_all
  from 1 2 3 that show thesis by simp
qed
subsection \<open>Reading the example tables\<close>

lemma boxes_dataset_no_transform: "boxes_dataset\<lparr>transforms := None\<rparr> = boxes_dataset"
  by (simp add: boxes_dataset_def)

lemma getitem_nan_package:
  assumes "ImageBboxWithPandas userhome df lb root_arg (Some ext) c2i_arg tr ld = Inr self"
    and "list_get (bbox_ids self) index = Inr image_id"
    and "ld image_id = Inr img"
    and "any_nan dt (map (\<lambda>r. corners dt (row_box lb r))
           (group_rows userhome root_arg ext image_id df))"
  shows "0 < length (group_rows userhome root_arg ext image_id df)"
    and "length (group_series (bbox_class_to_idx self)
           (group_rows userhome root_arg ext image_id df))
         = length (group_rows userhome root_arg ext image_id df)"
    and "ImageBboxWithPandas_getitem dt self index =
       (case apply_transforms tr
          \<lparr>image = img, bboxes = [],
           labels = Series (group_series (bbox_class_to_idx self)
                      (group_rows userhome root_arg ext image_id df))\<rparr> of
          Inl e \<Rightarrow> Inl e
        | Inr s \<Rightarrow> to_tensors s)"
    and "tr = Some t \<Longrightarrow>
        t \<lparr>image = img, bboxes = [],
           labels = Series (group_series (bbox_class_to_idx self)
                      (group_rows userhome root_arg ext image_id df))\<rparr> = Inr s \<Longrightarrow>
        bboxes s = [] \<Longrightarrow> torch_tensor_int (labels s) = Inr ls \<Longrightarrow>
        seq_len (labels s) = length (group_rows userhome root_arg ext image_id df) \<Longrightarrow>
        ImageBboxWithPandas_getitem dt self index =
          Inr \<lparr>out_image = image s, out_labels = ls,
               out_boxes = Placeholders
                             (length (group_rows userhome root_arg ext image_id df))\<rparr>"
    and "tr = None \<Longrightarrow>
        torch_tensor_int (Series (group_series (bbox_class_to_idx self)
                      (group_rows userhome root_arg ext image_id df))) = Inr ls \<Longrightarrow>
        ImageBboxWithPandas_getitem dt self index =
          Inr \<lparr>out_image = img, out_labels = ls,
               out_boxes = Placeholders
                             (length (group_rows userhome root_arg ext image_id df))\<rparr>"
proof -
  let ?rows = "group_rows userhome root_arg ext image_id df"
  let ?ser = "group_series (bbox_class_to_idx self) ?rows"
  let ?pkg = "\<lparr>image = img, bboxes = [], labels = Series ?ser\<rparr>"
  from getitem_unfold [OF assms(1-3), of dt] assms(4)
  have ne: "?rows \<noteq> []"
    and get: "ImageBboxWithPandas_getitem dt self index =
       (case apply_transforms tr ?pkg of Inl e \<Rightarrow> Inl e | Inr s \<Rightarrow> to_tensors s)"
    by simp_all
  from ne show "0 < length ?rows" by simp
  show len: "length ?ser = length ?rows"
    by (simp add: group_series_def)
  from get show "ImageBboxWithPandas_getitem dt self index =
       (case apply_transforms tr ?pkg of Inl e \<Rightarrow> Inl e | Inr s \<Rightarrow> to_tensors s)" .
  show "ImageBboxWithPandas_getitem dt self index =
          Inr \<lparr>out_image = image s, out_labels = ls, out_boxes = Placeholders (length ?rows)\<rparr>"
    if "tr = Some t" "t ?pkg = Inr s" "bboxes s = []" "torch_tensor_int (labels s) = Inr ls"
      "seq_len (labels s) = length ?rows"
    using that ne by (simp add: get apply_transforms_def to_tensors_def)
  show "ImageBboxWithPandas_getitem dt self index =
          Inr \<lparr>out_image = img, out_labels = ls, out_boxes = Placeholders (length ?rows)\<rparr>"
    if "tr = None" "torch_tensor_int (Series ?ser) = Inr ls"
    using that ne len by (simp add: get apply_transforms_def to_tensors_def)
qed

lemma p2_rows:
  "map (row_box bbox_names) (group_rows id None ''.png'' ''p2.png'' boxes_table)
     = [[f64 1, f64 1, f64 2, f64 2], [NaN, f64 1, f64 2, f64 2]]"
  by (simp add: boxes_dataset_groups box_cols_row)

lemma p2_series:
  "group_series (bbox_class_to_idx (boxes_dataset\<lparr>transforms := tr\<rparr>))
      (group_rows id None ''.png'' ''p2.png'' boxes_table) = [(1, 1), (2, 0)]"
  by (simp add: boxes_dataset_groups group_series_def boxes_dataset_def class_index_def)

lemma p2_any_nan:
  "any_nan float64_dtype (map (\<lambda>r. corners float64_dtype (row_box bbox_names r))
      (group_rows id None ''.png'' ''p2.png'' boxes_table))"
  by (simp add: boxes_dataset_groups box_cols_row any_nan_float64_iff)

lemma p2_id: "list_get (bbox_ids (boxes_dataset\<lparr>transforms := tr\<rparr>)) 1 = Inr ''p2.png''"
  by (simp add: boxes_dataset_def list_get_def)

lemma p2_loads: "path_loader ''p2.png'' = Inr ''p2.png''"
  by (simp add: path_loader_def)

lemma p1_rows:
  "map (row_box bbox_names) (group_rows id None ''.png'' ''p1.png'' boxes_table)
     = [[f64 10, f64 20, f64 5, f64 8], [f64 3, f64 4, f64 1, f64 1]]"
  by (simp add: boxes_dataset_groups box_cols_row)

lemma f64_small_sums:
  "f64_add (f64 10) (f64 5) = f64 15" "f64_add (f64 20) (f64 8) = f64 28"
  "f64_add (f64 3) (f64 1) = f64 4" "f64_add (f64 4) (f64 1) = f64 5"
  "f64_sub (f64 15) (f64 10) = f64 5" "f64_sub (f64 28) (f64 20) = f64 8"
  using f64_add_exact [of 10 5] f64_add_exact [of 20 8] f64_add_exact [of 3 1]
    f64_add_exact [of 4 1] f64_sub_exact [of 15 10] f64_sub_exact [of 28 20]
  by simp_all

lemma p1_corners:
  "map (\<lambda>r. corners float64_dtype (row_box bbox_names r))
      (group_rows id None ''.png'' ''p1.png'' boxes_table)
     = [[f64 10, f64 20, f64 15, f64 28], [f64 3, f64 4, f64 4, f64 5]]"
  by (simp add: boxes_dataset_groups box_cols_row f64_small_sums)

lemma p1_series:
  "group_series (bbox_class_to_idx boxes_dataset)
      (group_rows id None ''.png'' ''p1.png'' boxes_table) = [(0, 1), (3, 1)]"
  by (simp add: boxes_dataset_groups group_series_def boxes_dataset_def class_index_def)

lemma p1_id: "list_get (bbox_ids boxes_dataset) 0 = Inr ''p1.png''"
  by (simp add: boxes_dataset_def list_get_def)

lemma p1_loads: "path_loader ''p1.png'' = Inr ''p1.png''"
  by (simp add: path_loader_def)

lemma boxes_dataset_plain:
  "ImageBboxWithPandas id boxes_table bbox_names None (Some ''.png'') None None path_loader
     = Inr boxes_dataset"
  using boxes_dataset_constructed [of None] by (simp only: boxes_dataset_no_transform)

lemma wide_rows:
  "map (row_box bbox_names) (group_rows id None ''.png'' ''w.png'' wide_table)
     = [[f64 pow53, f64 0, f64 1, f64 0]]"
  by (simp add: wide_dataset_group) (simp add: wide_table_def box_cols_row)

lemma wide_corners:
  "map (\<lambda>r. corners float64_dtype (row_box bbox_names r))
      (group_rows id None ''.png'' ''w.png'' wide_table)
     = [[f64 pow53, f64 0, f64 pow53, f64 0]]"
  by (simp add: wide_dataset_group) (simp add: wide_table_def box_cols_row f64_add_tie f64_zero)

lemma wide_series:
  "group_series (bbox_class_to_idx wide_dataset)
      (group_rows id None ''.png'' ''w.png'' wide_table) = [(0, 0)]"
  by (simp add: wide_dataset_group)
     (simp add: wide_table_def group_series_def wide_dataset_def class_index_def)

lemma wide_id: "list_get (bbox_ids wide_dataset) 0 = Inr ''w.png''"
  by (simp add: wide_dataset_def list_get_def)

lemma wide_loads: "path_loader ''w.png'' = Inr ''w.png''"
  by (simp add: path_loader_def)

lemma wide_unconvert:
  "unconvert_box float64_dtype [f64 pow53, f64 0, f64 pow53, f64 0]
     = [f64 pow53, f64 0, f64 0, f64 0]"
  by (simp add: unconvert_box_def f64_sub_tie f64_zero)

lemma corners_of_opposite_infinities:
  "corners float64_dtype [PInf, f64 0, NInf, f64 0] = [PInf, f64 0, NaN, f64 0]"
  "any_nan float64_dtype [corners float64_dtype [PInf, f64 0, NInf, f64 0]]"
  "\<not> any_nan float64_dtype [[PInf, f64 0, NInf, f64 0]]"
  by (simp_all add: f64_zero any_nan_def f64_ne_self)

text \<open>
  \<^verbatim>\<open>0.1 + 0.2\<close> is rounded up, and taking \<^verbatim>\<open>0.1\<close> off again leaves more than
  \<^verbatim>\<open>0.2\<close>.
\<close>

lemma round_f64_shift_small:
  assumes "\<bar>round53 n\<bar> < 2 ^ 54" and "j + 54 \<le> emax + emin"
  shows "round_f64 (n * 2 ^ j) = Finite (round53 n * 2 ^ j)"
proof -
  have "\<bar>round53 n * 2 ^ j\<bar> = \<bar>round53 n\<bar> * 2 ^ j"
    by (simp add: abs_mult)
  also have "\<dots> < 2 ^ 54 * 2 ^ j"
    using assms(1) by (rule mult_strict_right_mono) simp
  also have "\<dots> = (2::int) ^ (j + 54)"
    by (simp only: power_add mult.commute)
  also have "\<dots> \<le> 2 ^ (emax + emin)"
    using assms(2) by (rule power_increasing) simp
  finally have "\<not> 2 ^ (emax + emin) \<le> \<bar>round53 n * 2 ^ j\<bar>"
    by (simp only: not_le)
  then show ?thesis
    unfolding round_f64_def Let_def round53_shift by (simp only: if_False)
qed

lemma frac_exp_fits: "frac_exp + 54 \<le> emax + emin"
  by (simp add: frac_exp_def emax_def emin_def)

lemma round53_three_tenths: "round53 10808639105689191 = 10808639105689192"
proof -
  have a: "nat \<bar>10808639105689191 :: int\<bar> = 10808639105689191"
    by simp
  have "bitlen 10808639105689191 = Suc 53"
    by (rule bitlen_eq) simp_all
  then have s: "bitlen 10808639105689191 - 53 = 1" by simp
  have r: "round_half_even 10808639105689191 1 = 5404319552844596"
    by (simp add: round_half_even_def)
  show ?thesis
    unfolding round53_def Let_def a s r by simp
qed

lemma tenth_plus_fifth: "f64_add tenth fifth = Finite (10808639105689192 * 2 ^ frac_exp)"
proof -
  have "f64_add tenth fifth = round_f64 (10808639105689191 * 2 ^ frac_exp)"
    unfolding tenth_def fifth_def f64_add.simps distrib_right [symmetric] by simp
  also have "\<dots> = Finite (round53 10808639105689191 * 2 ^ frac_exp)"
    by (rule round_f64_shift_small) (simp_all only: round53_three_tenths frac_exp_fits, simp)
  finally show ?thesis by (simp only: round53_three_tenths)
qed

lemma three_tenths_minus_tenth:
  "f64_sub (Finite (10808639105689192 * 2 ^ frac_exp)) tenth
     = Finite (7205759403792795 * 2 ^ frac_exp)"
proof -
  have n: "f64_neg tenth = Finite (- 3602879701896397 * 2 ^ frac_exp)"
    by (simp add: tenth_def)
  have "f64_sub (Finite (10808639105689192 * 2 ^ frac_exp)) tenth
      = round_f64 (7205759403792795 * 2 ^ frac_exp)"
    unfolding f64_sub_def n f64_add.simps distrib_right [symmetric] by simp
  also have "\<dots> = Finite (round53 7205759403792795 * 2 ^ frac_exp)"
    by (rule round_f64_shift_small) (simp_all add: round53_small frac_exp_fits)
  finally show ?thesis by (simp add: round53_small)
qed

lemma tenth_fifth_not_inverted:
  "corners float64_dtype [tenth, f64 0, fifth, f64 0]
     = [tenth, f64 0, Finite (10808639105689192 * 2 ^ frac_exp), f64 0]"
  "unconvert_box float64_dtype (corners float64_dtype [tenth, f64 0, fifth, f64 0])
     = [tenth, f64 0, Finite (7205759403792795 * 2 ^ frac_exp), f64 0]"
  by (simp_all add: unconvert_box_def tenth_plus_fifth three_tenths_minus_tenth f64_zero)

lemma tenth_fifth_differ: "Finite (7205759403792795 * 2 ^ frac_exp) \<noteq> fifth"
  by (simp add: fifth_def)

section \<open>Properties of DataLoaderChain\<close>

lemma length_pop: "idx < length xs \<Longrightarrow> length (pop idx xs) = length xs - 1"
  by (simp add: pop_def)

lemma mset_concat_pop:
  "idx < length xs \<Longrightarrow> xs ! idx = [] \<Longrightarrow> mset (concat (pop idx xs)) = mset (concat xs)"
proof (induction xs arbitrary: idx)
  case Nil
  then show ?case by simp
next
  case (Cons x xs)
  show ?case
  proof (cases idx)
    case 0
    with Cons.prems show ?thesis by (simp add: pop_def)
  next
    case (Suc j)
    with Cons.prems have "j < length xs" "xs ! j = []" by simp_all
    from Cons.IH [OF this] Suc show ?thesis by (simp add: pop_def)
  qed
qed

lemma mset_concat_update:
  "idx < length xs \<Longrightarrow> xs ! idx = y # rest \<Longrightarrow>
     mset (concat xs) = add_mset y (mset (concat (xs[idx := rest])))"
proof (induction xs arbitrary: idx)
  case Nil
  then show ?case by simp
next
  case (Cons x xs)
  show ?case
  proof (cases idx)
    case 0
    with Cons.prems show ?thesis by simp
  next
    case (Suc j)
    with Cons.prems have "j < length xs" "xs ! j = y # rest" by simp_all
    from Cons.IH [OF this] Suc show ?thesis by simp
  qed
qed

lemma drain_exhausts:
  "len_available = length available \<Longrightarrow> available \<noteq> [] \<Longrightarrow>
     snd (drain rnd k available len_available) = None \<and>
     mset (fst (drain rnd k available len_available)) = mset (concat available)"
proof (induction rnd k available len_available rule: drain.induct)
  case (1 rnd k available n)
  define idx where "idx = rnd k mod n"
  from "1.prems" have pos: "0 < n" by simp
  then have rr: "randrange (rnd k) n = Inr idx"
    by (simp add: randrange_def idx_def)
  from pos "1.prems" have lt: "idx < length available"
    by (simp add: idx_def)
  show ?case
  proof (cases "available ! idx")
    case Nil
    show ?thesis
    proof (cases "n - 1 = 0")
      case True
      with lt Nil have st: "step idx available n = Return"
        by (simp add: step_def)
      from True "1.prems" lt have "length available = 1" "idx = 0" by simp_all
      with Nil have "concat available = []"
        by (cases available) simp_all
      have "drain rnd k available n = ([], None)"
        by (subst drain.simps) (simp add: rr st)
      with \<open>concat available = []\<close> show ?thesis by simp
    next
      case False
      with lt Nil have st: "step idx available n = Removed (pop idx available) (n - 1)"
        by (simp add: step_def)
      from lt "1.prems" have len: "n - 1 = length (pop idx available)"
        by (simp add: length_pop)
      with False have ne: "pop idx available \<noteq> []" by auto
      have "drain rnd k available n = drain rnd (Suc k) (pop idx available) (n - 1)"
        by (subst drain.simps) (simp add: rr st)
      with "1.IH"(2) [OF rr st len ne] mset_concat_pop [OF lt Nil]
      show ?thesis by simp
    qed
  next
    case (Cons x rest)
    with lt have st: "step idx available n = Yield x (available[idx := rest]) n"
      by (simp add: step_def)
    from "1.prems" have len: "n = length (available[idx := rest])"
      and ne: "available[idx := rest] \<noteq> []" by simp_all
    have "drain rnd k available n =
        (case drain rnd (Suc k) (available[idx := rest]) n of (ys, r) \<Rightarrow> (x # ys, r))"
      by (subst drain.simps) (simp add: rr st)
    with "1.IH"(1) [OF rr st len ne] mset_concat_update [OF lt Cons]
    show ?thesis by (simp split: prod.splits)
  qed
qed

lemma drain_empty: "drain rnd k [] 0 = ([], Some ValueError)"
  by (subst drain.simps) (simp add: randrange_def)

lemma step_cases:
  assumes "idx < length available"
  shows "case step idx available (length available) of
           Yield x available' n' \<Rightarrow>
             available ! idx = x # available' ! idx \<and>
             available' = available[idx := tl (available ! idx)] \<and> n' = length available
         | Removed available' n' \<Rightarrow>
             available ! idx = [] \<and> available' = pop idx available \<and>
             n' = length available - 1 \<and> n' = length available' \<and> 0 < n'
         | Return \<Rightarrow> available ! idx = [] \<and> length available - 1 = 0
         | Raise e \<Rightarrow> False"
proof (cases "available ! idx")
  case Nil
  with assms show ?thesis
    by (simp add: step_def Let_def length_pop)
next
  case (Cons x rest)
  with assms show ?thesis
    by (simp add: step_def)
qed

lemma DataLoaderChain_ok:
  "DataLoaderChain ls = Inr \<lparr>loaders = ls, length_field = sum_list (map declared_len ls)\<rparr>"
  by (simp add: DataLoaderChain_def set_loaders_def chain_class_defaults_def)

text \<open>
  Claim C6. For a chain of at least one source, every run of the generator, whatever the
  random draws, returns normally (the loop function is total and its outcome is the
  \<^verbatim>\<open>return\<close>, not an exception), and the items it yields are exactly the items of
  the sources, each as often as the sources hold it: their number is the sum of the
  sources' item counts, empty sources included. Each pass of the loop body, at a drawn
  index of a live list whose count is right, either yields the head of that source and
  keeps the list's size, or finds the source exhausted and removes it (and only then),
  ending the iteration exactly when that removal leaves no live source.
\<close>

theorem chain_iter_exhausts:
  assumes "ls \<noteq> []"
  shows "(\<exists>self ys. DataLoaderChain ls = Inr self \<and>
            chain_iter rnd self = ((ys, None), self) \<and>
            length ys = sum_list (map (\<lambda>s. length (items s)) ls) \<and>
            mset ys = mset (concat (map items ls))) \<and>
         (\<forall>available idx. idx < length available \<longrightarrow>
            (case step idx available (length available) of
               Yield x available' n' \<Rightarrow>
                 available ! idx = x # available' ! idx \<and>
                 available' = available[idx := tl (available ! idx)] \<and>
                 n' = length available
             | Removed available' n' \<Rightarrow>
                 available ! idx = [] \<and> available' = pop idx available \<and>
                 n' = length available - 1 \<and> n' = length available' \<and> 0 < n'
             | Return \<Rightarrow> available ! idx = [] \<and> length available - 1 = 0
             | Raise e \<Rightarrow> False))"
proof -
  let ?self = "\<lparr>loaders = ls, length_field = sum_list (map declared_len ls)\<rparr>"
  let ?av = "map items ls"
  let ?res = "drain rnd 0 ?av (length ?av)"
  from assms have ne: "?av \<noteq> []" by simp
  from drain_exhausts [OF refl ne, of rnd 0]
  have r: "snd ?res = None" and m: "mset (fst ?res) = mset (concat ?av)"
    by simp_all
  from m have "size (mset (fst ?res)) = size (mset (concat ?av))" by simp
  then have l: "length (fst ?res) = sum_list (map (\<lambda>s. length (items s)) ls)"
    by (simp add: length_concat comp_def)
  have "chain_iter rnd ?self = ((fst ?res, None), ?self)"
    using r by (simp add: chain_iter_def Let_def prod_eq_iff)
  with l m DataLoaderChain_ok [of ls]
  have "\<exists>self ys. DataLoaderChain ls = Inr self \<and>
            chain_iter rnd self = ((ys, None), self) \<and>
            length ys = sum_list (map (\<lambda>s. length (items s)) ls) \<and>
            mset ys = mset (concat (map items ls))"
    by blast
  then show ?thesis using step_cases by blast
qed

text \<open>
  The spec's example: sources of 3, 5 and 0 items give 8 items, with the draws
  \<open>0, 1, 2, \<dots>\<close> as with any others.
\<close>

theorem chain_iter_exhausts_witness:
  "[\<lparr>declared_len = 3, items = [1, 2, 3 :: nat]\<rparr>,
    \<lparr>declared_len = 5, items = [4, 5, 6, 7, 8]\<rparr>,
    \<lparr>declared_len = 0, items = []\<rparr>] \<noteq> [] \<and>
   (\<exists>self ys.
      DataLoaderChain [\<lparr>declared_len = 3, items = [1, 2, 3 :: nat]\<rparr>,
        \<lparr>declared_len = 5, items = [4, 5, 6, 7, 8]\<rparr>,
        \<lparr>declared_len = 0, items = []\<rparr>] = Inr self \<and>
      chain_iter (\<lambda>k. k) self = ((ys, None), self) \<and> length ys = 8)"
proof -
  let ?ls = "[\<lparr>declared_len = 3, items = [1, 2, 3 :: nat]\<rparr>,
    \<lparr>declared_len = 5, items = [4, 5, 6, 7, 8]\<rparr>,
    \<lparr>declared_len = 0, items = []\<rparr>]"
  have ne: "?ls \<noteq> []" by simp
  from chain_iter_exhausts [OF ne, of "\<lambda>k. k"]
  obtain self ys where "DataLoaderChain ?ls = Inr self"
    and "chain_iter (\<lambda>k. k) self = ((ys, None), self)"
    and "length ys = sum_list (map (\<lambda>s. length (items s)) ?ls)"
    by blast
  moreover from this have "length ys = 8" by simp
  ultimately show ?thesis using ne by blast
qed

lemma chain_iter_example:
  "fst (chain_iter (\<lambda>k. k) \<lparr>loaders = [\<lparr>declared_len = 3, items = [1, 2, 3 :: nat]\<rparr>,
    \<lparr>declared_len = 5, items = [4, 5, 6, 7, 8]\<rparr>,
    \<lparr>declared_len = 0, items = []\<rparr>], length_field = 8\<rparr>) = ([1, 4, 5, 2, 6, 3, 7, 8], None)"
  by code_simp

text \<open>
  Claim C8. The length a chain reports is the sum of the lengths its sources declare,
  fixed by the setter that the constructor calls. Iterating reads only the sources'
  items: it returns the object as it was, so the reported length is the same afterwards,
  whatever was yielded.
\<close>

theorem chain_len_declared_sum:
  "\<exists>self. DataLoaderChain ls = Inr self \<and>
     chain_len self = sum_list (map declared_len ls) \<and>
     chain_iter rnd self = (drain rnd 0 (map items ls) (length ls), self) \<and>
     chain_len (snd (chain_iter rnd self)) = sum_list (map declared_len ls)"
  using DataLoaderChain_ok [of ls]
  by (simp add: chain_iter_def chain_len_def chain_length_def Let_def)

text \<open>
  A source that declares 5 items and holds one: the chain reports 5 before and after an
  iteration that yields a single item.
\<close>

theorem chain_len_declared_sum_witness:
  "\<exists>self. DataLoaderChain [\<lparr>declared_len = 5, items = [7 :: nat]\<rparr>] = Inr self \<and>
     chain_len self = 5 \<and>
     chain_iter (\<lambda>k. k) self = (([7], None), self) \<and>
     chain_len (snd (chain_iter (\<lambda>k. k) self)) = 5"
proof -
  have d: "drain (\<lambda>k. k) 0 [[7 :: nat]] 1 = ([7], None)"
    by code_simp
  from chain_len_declared_sum [of "[\<lparr>declared_len = 5, items = [7 :: nat]\<rparr>]" "\<lambda>k. k"] d
  show ?thesis by simp
qed

text \<open>
  Claim C9. Indexing a chain raises \<^verbatim>\<open>NotImplementedError\<close> for every chain and every
  position: no item comes back, and the object is as before.
\<close>

theorem chain_getitem_not_implemented:
  "chain_getitem self item = (Inl NotImplementedError, self)"
  by (simp add: chain_getitem_def)

text \<open>
  Claim C10. A chain built from no sources reports length 0, and its iteration, for any
  random draws, yields nothing and ends with the \<^verbatim>\<open>ValueError\<close> of
  \<^verbatim>\<open>random.randrange(0)\<close> rather than with a normal return.
\<close>

theorem chain_iter_no_sources:
  "\<exists>self. DataLoaderChain ([] :: 'a source list) = Inr self \<and> chain_len self = 0 \<and>
     chain_iter rnd self = (([], Some ValueError), self)"
  using DataLoaderChain_ok [of "[] :: 'a source list"]
  by (simp add: chain_iter_def chain_len_def chain_length_def Let_def drain_empty)

section \<open>Properties of the data sets\<close>

text \<open>
  Claim C1, as the code has it. For an extension given as a string: when it starts
  with \<open>.\<close>, the assertion of line 106 (and 195) passes, so that construction goes on to
  the class mapping, succeeds when no dictionary is given (and, for the detection data
  set, four box columns are named) and can otherwise fail only with the \<^verbatim>\<open>KeyError\<close>
  of a class missing from the given dictionary or the assertion on the number of box
  columns; when it does not start with \<open>.\<close>, construction of either data set fails at
  once with \<^verbatim>\<open>AssertionError\<close>, which is not a \<^verbatim>\<open>ValueError\<close>.
\<close>

theorem extension_check:
  "(startswith ext ''.'' \<longrightarrow>
      check_extension (Some ext) = Inr ext \<and>
      (\<exists>self. ImageWithPandas userhome df root_arg (Some ext) None = Inr self) \<and>
      (\<forall>e. ImageWithPandas userhome df root_arg (Some ext) c2i_arg = Inl e \<longrightarrow> e = KeyError) \<and>
      (length lb = 4 \<longrightarrow>
         (\<exists>self. ImageBboxWithPandas userhome df lb root_arg (Some ext) None tr ld = Inr self)) \<and>
      (\<forall>e. ImageBboxWithPandas userhome df lb root_arg (Some ext) c2i_arg tr ld = Inl e \<longrightarrow>
         e = KeyError \<or> (e = AssertionError \<and> length lb \<noteq> 4))) \<and>
   (\<not> startswith ext ''.'' \<longrightarrow>
      check_extension (Some ext) = Inl AssertionError \<and>
      ImageWithPandas userhome df root_arg (Some ext) c2i_arg = Inl AssertionError \<and>
      ImageBboxWithPandas userhome df lb root_arg (Some ext) c2i_arg tr ld = Inl AssertionError \<and>
      \<not> is_ValueError AssertionError)"
proof (cases "startswith ext ''.''")
  case True
  have ok: "\<forall>r \<in> set df. map_of (chosen_dict None (map rtarget df)) (rtarget r) \<noteq> None"
    using chosen_dict_None_defined by blast
  have 1: "\<exists>self. ImageWithPandas userhome df root_arg (Some ext) None = Inr self"
    using ImageWithPandas_ok [OF True ok] by blast
  have 2: "\<forall>e. ImageWithPandas userhome df root_arg (Some ext) c2i_arg = Inl e \<longrightarrow> e = KeyError"
    using True by (auto dest: ImageWithPandas_Inl)
  have 3: "length lb = 4 \<longrightarrow>
      (\<exists>self. ImageBboxWithPandas userhome df lb root_arg (Some ext) None tr ld = Inr self)"
    using ImageBboxWithPandas_ok [OF True _ ok] by blast
  have 4: "\<forall>e. ImageBboxWithPandas userhome df lb root_arg (Some ext) c2i_arg tr ld = Inl e \<longrightarrow>
         e = KeyError \<or> (e = AssertionError \<and> length lb \<noteq> 4)"
    using True by (auto dest: ImageBboxWithPandas_Inl)
  from True 1 2 3 4 show ?thesis
    by (simp add: check_extension_Some)
next
  case False
  then have "ImageWithPandas userhome df root_arg (Some ext) c2i_arg = Inl AssertionError"
    by (simp add: ImageWithPandas_unfold check_extension_Some)
  moreover from False
  have "ImageBboxWithPandas userhome df lb root_arg (Some ext) c2i_arg tr ld = Inl AssertionError"
    by (simp add: ImageBboxWithPandas_unfold check_extension_Some)
  ultimately show ?thesis using False
    by (simp add: check_extension_Some)
qed

theorem extension_check_witness:
  "startswith ''.png'' ''.'' \<and>
   (\<exists>self. ImageWithPandas id pets_table None (Some ''.png'') None = Inr self) \<and>
   (\<exists>self. ImageBboxWithPandas id pets_table bbox_names None (Some ''.png'') None None path_loader
      = Inr self) \<and>
   \<not> startswith ''png'' ''.'' \<and>
   ImageWithPandas id pets_table None (Some ''png'') None = Inl AssertionError \<and>
   ImageBboxWithPandas id pets_table bbox_names None (Some ''png'') None None path_loader
      = Inl AssertionError"
proof -
  have a: "startswith ''.png'' ''.''" and b: "\<not> startswith ''png'' ''.''"
    and c: "length bbox_names = 4"
    by (simp_all add: startswith_def bbox_names_def)
  from extension_check [of "''.png''" id pets_table None None bbox_names None path_loader]
    extension_check [of "''png''" id pets_table None None bbox_names None path_loader] a b c
  show ?thesis by simp
qed

text \<open>
  The claim as worded fails on the code: an extension without the leading \<open>.\<close> makes
  construction fail with \<^verbatim>\<open>AssertionError\<close>, which no \<^verbatim>\<open>except ValueError\<close> catches.
\<close>

theorem extension_check_counterexample:
  "ImageWithPandas id pets_table None (Some ''png'') None = Inl AssertionError \<and>
   \<not> is_ValueError AssertionError"
  by (simp add: ImageWithPandas_unfold check_extension_Some startswith_def)

text \<open>
  With the default \<^verbatim>\<open>extension=None\<close> the left operand of the assertion is evaluated
  first and raises \<^verbatim>\<open>AttributeError\<close>: neither constructor returns a data set.
\<close>

lemma extension_None_raises:
  "ImageWithPandas userhome df root_arg None c2i_arg = Inl AttributeError"
  "length lb = 4 \<Longrightarrow>
     ImageBboxWithPandas userhome df lb root_arg None c2i_arg tr ld = Inl AttributeError"
  by (simp_all add: ImageWithPandas_unfold ImageBboxWithPandas_unfold check_extension_None)

text \<open>
  Claim C2. The length of a constructed classification data set is the number of
  distinct pairs of resolved path and class index among the rows of the table, for
  whatever dictionary was given. When the dictionary sends different class names of the
  table to different indices, as the one built from the table always does, this is the
  number of distinct pairs of resolved path and class name.
\<close>

theorem ImageWithPandas_len_distinct_pairs:
  assumes "ImageWithPandas userhome df root_arg extension c2i_arg = Inr self"
  shows "\<exists>ext. extension = Some ext \<and>
           ImageWithPandas_len self =
             card ((\<lambda>r. (resolved_id userhome root_arg ext (rid r),
                         class_index (class_to_idx self) (rtarget r))) ` set df) \<and>
           (c2i_arg = None \<or> inj_on (class_index (class_to_idx self)) (rtarget ` set df) \<longrightarrow>
              ImageWithPandas_len self =
                card ((\<lambda>r. (resolved_id userhome root_arg ext (rid r), rtarget r)) ` set df))"
proof -
  from ImageWithPandas_Inr [OF assms] obtain ext where
    ext: "extension = Some ext"
    and d: "class_to_idx self = chosen_dict c2i_arg (map rtarget df)"
    and s: "samples self = drop_duplicates (map (\<lambda>r. (resolved_id userhome root_arg ext (rid r),
                                  class_index (class_to_idx self) (rtarget r))) df)"
    by blast
  from s have len: "ImageWithPandas_len self =
      card ((\<lambda>r. (resolved_id userhome root_arg ext (rid r),
                  class_index (class_to_idx self) (rtarget r))) ` set df)"
    by (simp add: ImageWithPandas_len_def length_drop_duplicates)
  have "ImageWithPandas_len self =
      card ((\<lambda>r. (resolved_id userhome root_arg ext (rid r), rtarget r)) ` set df)"
    if "c2i_arg = None \<or> inj_on (class_index (class_to_idx self)) (rtarget ` set df)"
  proof -
    from that d class_index_chosen_None_inj [of "map rtarget df"]
    have "inj_on (class_index (class_to_idx self)) (rtarget ` set df)"
      by auto
    from card_image_pairs [OF this] len show ?thesis by simp
  qed
  with ext len show ?thesis by blast
qed

theorem ImageWithPandas_len_distinct_pairs_witness:
  "\<exists>self. ImageWithPandas id pets_table None (Some ''.png'') None = Inr self \<and>
     ImageWithPandas_len self = 3 \<and>
     card ((\<lambda>r. (resolved_id id None ''.png'' (rid r), rtarget r)) ` set pets_table) = 3"
proof -
  let ?self = "\<lparr>samples = [(''img1.png'', 2), (''img2.png'', 1), (''img3.png'', 0)],
          classes = [''bird'', ''cat'', ''dog''],
          class_to_idx = [(''bird'', 0), (''cat'', 1), (''dog'', 2)],
          num_classes = 3\<rparr>"
  have c: "ImageWithPandas id pets_table None (Some ''.png'') None = Inr ?self"
    by code_simp
  have l: "ImageWithPandas_len ?self = 3"
    by (simp add: ImageWithPandas_len_def)
  from ImageWithPandas_len_distinct_pairs [OF c] l
  have "card ((\<lambda>r. (resolved_id id None ''.png'' (rid r), rtarget r)) ` set pets_table) = 3"
    by simp
  with c l show ?thesis by blast
qed

text \<open>
  A dictionary that gives two class names of the table one index merges their rows:
  two rows with different class names for one image leave a data set of length 1.
\<close>

lemma ImageWithPandas_len_merging_dict:
  "\<exists>self. ImageWithPandas id two_class_table None (Some ''.png'') (Some merging_dict) = Inr self \<and>
     ImageWithPandas_len self = 1 \<and> samples self = [(''a.png'', 0)]"
proof -
  have "ImageWithPandas id two_class_table None (Some ''.png'') (Some merging_dict) =
     Inr \<lparr>samples = [(''a.png'', 0)], classes = [''cat'', ''dog''],
          class_to_idx = [(''cat'', 0), (''dog'', 0)], num_classes = 2\<rparr>"
    by code_simp
  then show ?thesis by (simp add: ImageWithPandas_len_def)
qed

text \<open>
  Claim C4. Two tables with the same set of class names, each handed to either
  constructor without a dictionary (and with an extension that passes the assertion,
  without which no data set is constructed), give data sets with the same dictionary,
  whatever the order and repetition of the rows: its keys are the class names of the
  table, and each is mapped to its 0-based rank among them in the lexicographic order.
  The stored targets are these ranks.
\<close>

theorem class_indices_sorted_rank:
  assumes "rtarget ` set df1 = rtarget ` set df2"
    and "startswith ext1 ''.''" and "startswith ext2 ''.''"
    and "length lb1 = 4" and "length lb2 = 4"
  shows "\<exists>a1 a2 b1 b2.
     ImageWithPandas userhome1 df1 root1 (Some ext1) None = Inr a1 \<and>
     ImageWithPandas userhome2 df2 root2 (Some ext2) None = Inr a2 \<and>
     ImageBboxWithPandas userhome1 df1 lb1 root1 (Some ext1) None tr1 ld1 = Inr b1 \<and>
     ImageBboxWithPandas userhome2 df2 lb2 root2 (Some ext2) None tr2 ld2 = Inr b2 \<and>
     class_to_idx a1 = class_to_idx a2 \<and>
     bbox_class_to_idx b1 = bbox_class_to_idx b2 \<and>
     bbox_class_to_idx b1 = class_to_idx a1 \<and>
     fst ` set (class_to_idx a1) = rtarget ` set df1 \<and>
     (\<forall>l \<in> rtarget ` set df1.
        dict_get (class_to_idx a1) l = Inr (label_rank (rtarget ` set df1) l)) \<and>
     samples a1 = drop_duplicates (map (\<lambda>r. (resolved_id userhome1 root1 ext1 (rid r),
                     label_rank (rtarget ` set df1) (rtarget r))) df1) \<and>
     map rtarget (bbox_samples b1) = map (\<lambda>r. label_rank (rtarget ` set df1) (rtarget r)) df1"
proof -
  let ?d = "chosen_dict None (map rtarget df1)"
  have set_eq: "set (map rtarget df1) = set (map rtarget df2)"
    using assms(1) by simp
  then have "sorted_classes (map rtarget df1) = sorted_classes (map rtarget df2)"
    by (simp only: sorted_classes_eq)
  then have d_eq: "chosen_dict None (map rtarget df2) = ?d"
    by (simp add: chosen_dict_def)
  have ok1: "\<forall>r \<in> set df1. map_of ?d (rtarget r) \<noteq> None"
    using chosen_dict_None_defined by blast
  have ok2: "\<forall>r \<in> set df2. map_of (chosen_dict None (map rtarget df2)) (rtarget r) \<noteq> None"
    using chosen_dict_None_defined by blast
  note a1 = ImageWithPandas_ok [OF assms(2) ok1, of userhome1 root1]
  note a2 = ImageWithPandas_ok [OF assms(3) ok2, of userhome2 root2]
  note b1 = ImageBboxWithPandas_ok [OF assms(2) assms(4) ok1, of userhome1 root1 tr1 ld1]
  note b2 = ImageBboxWithPandas_ok [OF assms(3) assms(5) ok2, of userhome2 root2 tr2 ld2]
  have rank: "class_index ?d l = label_rank (rtarget ` set df1) l" if "l \<in> rtarget ` set df1" for l
    using that class_index_enumerate_dict [of l "map rtarget df1"] by (simp add: chosen_dict_def)
  have keys: "fst ` set ?d = rtarget ` set df1"
    by (simp add: chosen_dict_def dom_enumerate_dict)
  have get: "\<forall>l \<in> rtarget ` set df1. dict_get ?d l = Inr (label_rank (rtarget ` set df1) l)"
  proof
    fix l assume l: "l \<in> rtarget ` set df1"
    then have "l \<in> set (map rtarget df1)" by simp
    from enumerate_dict_rank [OF this] show "dict_get ?d l = Inr (label_rank (rtarget ` set df1) l)"
      by (simp add: dict_get_def chosen_dict_def label_rank_def)
  qed
  have s: "map (\<lambda>r. (resolved_id userhome1 root1 ext1 (rid r), class_index ?d (rtarget r))) df1
      = map (\<lambda>r. (resolved_id userhome1 root1 ext1 (rid r),
                     label_rank (rtarget ` set df1) (rtarget r))) df1"
    using rank by simp
  have t: "map rtarget (map (prepared_row userhome1 root1 ext1 ?d) df1)
      = map (\<lambda>r. label_rank (rtarget ` set df1) (rtarget r)) df1"
    using rank by (simp add: prepared_row_def)
  from a1 obtain A1 where A1: "ImageWithPandas userhome1 df1 root1 (Some ext1) None = Inr A1"
    and A1d: "class_to_idx A1 = ?d"
    and A1s: "samples A1 = drop_duplicates (map (\<lambda>r. (resolved_id userhome1 root1 ext1 (rid r),
                class_index ?d (rtarget r))) df1)"
    by simp
  from a2 obtain A2 where A2: "ImageWithPandas userhome2 df2 root2 (Some ext2) None = Inr A2"
    and A2d: "class_to_idx A2 = ?d"
    by (simp add: d_eq)
  from b1 obtain B1 where
    B1: "ImageBboxWithPandas userhome1 df1 lb1 root1 (Some ext1) None tr1 ld1 = Inr B1"
    and B1d: "bbox_class_to_idx B1 = ?d"
    and B1s: "bbox_samples B1 = map (prepared_row userhome1 root1 ext1 ?d) df1"
    by simp
  from b2 obtain B2 where
    B2: "ImageBboxWithPandas userhome2 df2 lb2 root2 (Some ext2) None tr2 ld2 = Inr B2"
    and B2d: "bbox_class_to_idx B2 = ?d"
    by (simp add: d_eq)
  have c5: "class_to_idx A1 = class_to_idx A2" using A1d A2d by simp
  have c6: "bbox_class_to_idx B1 = bbox_class_to_idx B2" using B1d B2d by simp
  have c7: "bbox_class_to_idx B1 = class_to_idx A1" using A1d B1d by simp
  have c8: "fst ` set (class_to_idx A1) = rtarget ` set df1" using keys A1d by simp
  have c9: "\<forall>l \<in> rtarget ` set df1.
        dict_get (class_to_idx A1) l = Inr (label_rank (rtarget ` set df1) l)"
    using get A1d by simp
  have c10: "samples A1 = drop_duplicates (map (\<lambda>r. (resolved_id userhome1 root1 ext1 (rid r),
                     label_rank (rtarget ` set df1) (rtarget r))) df1)"
    using A1s s by simp
  have c11: "map rtarget (bbox_samples B1)
      = map (\<lambda>r. label_rank (rtarget ` set df1) (rtarget r)) df1"
    using B1s t by simp
  from A1 A2 B1 B2 c5 c6 c7 c8 c9 c10 c11 show ?thesis by blast
qed

theorem class_indices_sorted_rank_witness:
  "rtarget ` set pets_table = rtarget ` set pets_table_shuffled \<and>
   startswith ''.png'' ''.'' \<and> startswith ''.jpg'' ''.'' \<and> length bbox_names = 4 \<and>
   (\<exists>a1 a2 b1 b2.
      ImageWithPandas id pets_table None (Some ''.png'') None = Inr a1 \<and>
      ImageWithPandas id pets_table_shuffled (Some ''/data'') (Some ''.jpg'') None = Inr a2 \<and>
      ImageBboxWithPandas id pets_table bbox_names None (Some ''.png'') None None path_loader
        = Inr b1 \<and>
      ImageBboxWithPandas id pets_table_shuffled bbox_names (Some ''/data'') (Some ''.jpg'') None
        None path_loader = Inr b2 \<and>
      class_to_idx a1 = class_to_idx a2 \<and>
      bbox_class_to_idx b1 = bbox_class_to_idx b2 \<and>
      bbox_class_to_idx b1 = class_to_idx a1 \<and>
      class_to_idx a1 = [(''bird'', 0), (''cat'', 1), (''dog'', 2)])"
proof -
  have h1: "rtarget ` set pets_table = rtarget ` set pets_table_shuffled"
    by (simp add: pets_table_def pets_table_shuffled_def insert_commute)
  have h2: "startswith ''.png'' ''.''" and h3: "startswith ''.jpg'' ''.''"
    and h4: "length bbox_names = 4"
    by (simp_all add: startswith_def bbox_names_def)
  from class_indices_sorted_rank [OF h1 h2 h3 h4 h4,
      of id None id "Some ''/data''" None path_loader None path_loader]
  obtain a1 a2 and b1 b2 :: "(string, float64) image_bbox_with_pandas" where
    c: "ImageWithPandas id pets_table None (Some ''.png'') None = Inr a1"
      "ImageWithPandas id pets_table_shuffled (Some ''/data'') (Some ''.jpg'') None = Inr a2"
      "ImageBboxWithPandas id pets_table bbox_names None (Some ''.png'') None None path_loader
        = Inr b1"
      "ImageBboxWithPandas id pets_table_shuffled bbox_names (Some ''/data'') (Some ''.jpg'') None
        None path_loader = Inr b2"
      "class_to_idx a1 = class_to_idx a2"
      "bbox_class_to_idx b1 = bbox_class_to_idx b2"
      "bbox_class_to_idx b1 = class_to_idx a1"
    by (elim exE conjE) (rule that)
  from c(1) have cc: "class_to_idx a1 = [(''bird'', 0), (''cat'', 1), (''dog'', 2)]"
    by (auto simp: pets_png)
  show ?thesis
    by (intro conjI exI) (rule h1 h2 h3 h4 c cc)+
qed

text \<open>
  Claim C3, where the code departs from it. The table \<open>boxes_table\<close> has the default
  index; its image \<open>p2\<close> has the rows labelled 1 and 2, with boxes \<open>[1, 1, 2, 2]\<close> and
  \<open>[NaN, 1, 2, 2]\<close>. Read without a transform, the sample at position 1 is not the
  record of two labels and two placeholders: the boxes are discarded and both labels
  kept, but the label series, which has no row labelled 0, makes \<^verbatim>\<open>torch.tensor\<close> raise
  \<^verbatim>\<open>ValueError\<close> at line 262.
\<close>

theorem getitem_nan_group_raises:
  "ImageBboxWithPandas id boxes_table bbox_names None (Some ''.png'') None None path_loader
     = Inr boxes_dataset \<and>
   list_get (bbox_ids boxes_dataset) 1 = Inr ''p2.png'' \<and>
   map (row_box bbox_names) (group_rows id None ''.png'' ''p2.png'' boxes_table)
     = [[f64 1, f64 1, f64 2, f64 2], [NaN, f64 1, f64 2, f64 2]] \<and>
   map rindex (group_rows id None ''.png'' ''p2.png'' boxes_table) = [1, 2] \<and>
   ImageBboxWithPandas_getitem float64_dtype boxes_dataset 1 = Inl ValueError"
proof -
  have C: "ImageBboxWithPandas id boxes_table bbox_names None (Some ''.png'') None None path_loader
     = Inr boxes_dataset"
    using boxes_dataset_constructed [of None] by (simp only: boxes_dataset_no_transform)
  have I: "list_get (bbox_ids boxes_dataset) 1 = Inr ''p2.png''"
    using p2_id [of None] by (simp only: boxes_dataset_no_transform)
  have S: "group_series (bbox_class_to_idx boxes_dataset)
      (group_rows id None ''.png'' ''p2.png'' boxes_table) = [(1, 1), (2, 0)]"
    using p2_series [of None] by (simp only: boxes_dataset_no_transform)
  have R: "map rindex (group_rows id None ''.png'' ''p2.png'' boxes_table) = [1, 2]"
    by (simp add: boxes_dataset_groups)
  have "ImageBboxWithPandas_getitem float64_dtype boxes_dataset 1 = Inl ValueError"
    unfolding getitem_nan_package(3) [OF C I p2_loads p2_any_nan] S
    by (simp add: apply_transforms_def to_tensors_def)
  with C I p2_rows R show ?thesis by (intro conjI)
qed

text \<open>
  The other path does what the claim says: with a transform that hands the labels back
  as a list, the same sample is the record of two labels and two placeholders.
\<close>

lemma getitem_nan_group_listing:
  "ImageBboxWithPandas_getitem float64_dtype (boxes_dataset\<lparr>transforms := Some listing_transform\<rparr>) 1
     = Inr \<lparr>out_image = ''p2.png'', out_labels = [1, 0], out_boxes = Placeholders 2\<rparr>"
  unfolding getitem_nan_package(3) [OF boxes_dataset_constructed p2_id p2_loads p2_any_nan] p2_series
  by (simp add: apply_transforms_def to_tensors_def listing_transform_def store_int32_def)

text \<open>
  Claim C7, as the code has it. Take a detection data set as constructed, a valid
  position, an image that loads, and a dtype of the box columns in which the converted
  array of the image's group holds no NaN. The boxes of the package that
  \<^verbatim>\<open>__getitem__\<close> builds, and of the sample it returns when no transform is set and the
  label tensor can be built, are the rows' boxes \<open>[x, y, w, h]\<close> turned into
  \<open>[x, y, x + w, y + h]\<close>, one per row in table order, with the sums of that dtype.
  Taking \<open>w = x1 - x0\<close> and \<open>h = y1 - y0\<close> of a converted box gives the row's box back
  when the two sums lose nothing, that is when \<open>(x + w) - x = w\<close> and
  \<open>(y + h) - y = h\<close> in the dtype: always for \<^verbatim>\<open>int64\<close>, and for \<^verbatim>\<open>float64\<close> when
  the coordinates are integers of magnitude below \<open>2^52\<close>.
\<close>

theorem getitem_converts_boxes:
  assumes "ImageBboxWithPandas userhome df lb root_arg (Some ext) c2i_arg tr ld = Inr self"
    and "list_get (bbox_ids self) index = Inr image_id"
    and "ld image_id = Inr img"
    and "\<not> any_nan dt (map (\<lambda>r. corners dt (row_box lb r))
             (group_rows userhome root_arg ext image_id df))"
  shows "ImageBboxWithPandas_getitem dt self index =
       (case apply_transforms tr
          \<lparr>image = img,
           bboxes = map (\<lambda>r. corners dt (row_box lb r))
                      (group_rows userhome root_arg ext image_id df),
           labels = Series (group_series (bbox_class_to_idx self)
                      (group_rows userhome root_arg ext image_id df))\<rparr> of
          Inl e \<Rightarrow> Inl e
        | Inr s \<Rightarrow> to_tensors s) \<and>
     (\<forall>ls. tr = None \<and>
        torch_tensor_int (Series (group_series (bbox_class_to_idx self)
           (group_rows userhome root_arg ext image_id df))) = Inr ls \<longrightarrow>
        ImageBboxWithPandas_getitem dt self index =
          Inr \<lparr>out_image = img, out_labels = ls,
               out_boxes = Boxes (map (\<lambda>r. corners dt (row_box lb r))
                                    (group_rows userhome root_arg ext image_id df))\<rparr>) \<and>
     (\<forall>r \<in> set (group_rows userhome root_arg ext image_id df).
        \<exists>x y w h. row_box lb r = [x, y, w, h] \<and>
          corners dt (row_box lb r) = [x, y, dt_add dt x w, dt_add dt y h] \<and>
          (dt_sub dt (dt_add dt x w) x = w \<and> dt_sub dt (dt_add dt y h) y = h \<longrightarrow>
             unconvert_box dt (corners dt (row_box lb r)) = row_box lb r)) \<and>
     (\<forall>x w. dt_sub int64_dtype (dt_add int64_dtype x w) x = w) \<and>
     (\<forall>a b. \<bar>a\<bar> < 2 ^ 52 \<and> \<bar>b\<bar> < 2 ^ 52 \<longrightarrow>
        dt_add float64_dtype (f64 a) (f64 b) = f64 (a + b) \<and>
        dt_sub float64_dtype (dt_add float64_dtype (f64 a) (f64 b)) (f64 a) = f64 b)"
proof -
  let ?rows = "group_rows userhome root_arg ext image_id df"
  let ?ser = "group_series (bbox_class_to_idx self) ?rows"
  let ?boxes = "map (\<lambda>r. corners dt (row_box lb r)) ?rows"
  let ?pkg = "\<lparr>image = img, bboxes = ?boxes, labels = Series ?ser\<rparr>"
  from ImageBboxWithPandas_Inr [OF assms(1)] have lb: "length lb = 4" by blast
  from getitem_unfold [OF assms(1-3), of dt] assms(4)
  have ne: "?rows \<noteq> []"
    and get: "ImageBboxWithPandas_getitem dt self index =
       (case apply_transforms tr ?pkg of Inl e \<Rightarrow> Inl e | Inr s \<Rightarrow> to_tensors s)"
    by simp_all
  have none: "\<forall>ls. tr = None \<and> torch_tensor_int (Series ?ser) = Inr ls \<longrightarrow>
      ImageBboxWithPandas_getitem dt self index =
        Inr \<lparr>out_image = img, out_labels = ls, out_boxes = Boxes ?boxes\<rparr>"
    using ne by (simp add: get apply_transforms_def to_tensors_def)
  have each: "\<forall>r \<in> set ?rows.
        \<exists>x y w h. row_box lb r = [x, y, w, h] \<and>
          corners dt (row_box lb r) = [x, y, dt_add dt x w, dt_add dt y h] \<and>
          (dt_sub dt (dt_add dt x w) x = w \<and> dt_sub dt (dt_add dt y h) y = h \<longrightarrow>
             unconvert_box dt (corners dt (row_box lb r)) = row_box lb r)"
  proof
    fix r assume "r \<in> set ?rows"
    from lb have "length (row_box lb r) = 4" by (simp add: row_box_def)
    then obtain x y w h where b: "row_box lb r = [x, y, w, h]" by (rule length_4E)
    then have c: "corners dt (row_box lb r) = [x, y, dt_add dt x w, dt_add dt y h]"
      by simp
    have "unconvert_box dt (corners dt (row_box lb r)) = row_box lb r"
      if "dt_sub dt (dt_add dt x w) x = w \<and> dt_sub dt (dt_add dt y h) y = h"
      using that unconvert_corners [of dt x w y h] b by simp
    with b c show "\<exists>x y w h. row_box lb r = [x, y, w, h] \<and>
          corners dt (row_box lb r) = [x, y, dt_add dt x w, dt_add dt y h] \<and>
          (dt_sub dt (dt_add dt x w) x = w \<and> dt_sub dt (dt_add dt y h) y = h \<longrightarrow>
             unconvert_box dt (corners dt (row_box lb r)) = row_box lb r)"
      by blast
  qed
  have i64: "\<forall>x w. dt_sub int64_dtype (dt_add int64_dtype x w) x = w"
    by (simp add: int64_round_trip)
  have f: "\<forall>a b. \<bar>a\<bar> < 2 ^ 52 \<and> \<bar>b\<bar> < 2 ^ 52 \<longrightarrow>
        dt_add float64_dtype (f64 a) (f64 b) = f64 (a + b) \<and>
        dt_sub float64_dtype (dt_add float64_dtype (f64 a) (f64 b)) (f64 a) = f64 b"
    using float64_round_trip_int by blast
  from get none each i64 f show ?thesis by (intro conjI)
qed


theorem getitem_converts_boxes_witness:
  "ImageBboxWithPandas id boxes_table bbox_names None (Some ''.png'') None None path_loader
     = Inr boxes_dataset \<and>
   list_get (bbox_ids boxes_dataset) 0 = Inr ''p1.png'' \<and>
   path_loader ''p1.png'' = Inr ''p1.png'' \<and>
   map (row_box bbox_names) (group_rows id None ''.png'' ''p1.png'' boxes_table)
     = [[f64 10, f64 20, f64 5, f64 8], [f64 3, f64 4, f64 1, f64 1]] \<and>
   map rindex (group_rows id None ''.png'' ''p1.png'' boxes_table) = [0, 3] \<and>
   \<not> any_nan float64_dtype
       (map (\<lambda>r. corners float64_dtype (row_box bbox_names r))
          (group_rows id None ''.png'' ''p1.png'' boxes_table)) \<and>
   ImageBboxWithPandas_getitem float64_dtype boxes_dataset 0 =
     Inr \<lparr>out_image = ''p1.png'', out_labels = [1, 1],
          out_boxes = Boxes [[f64 10, f64 20, f64 15, f64 28], [f64 3, f64 4, f64 4, f64 5]]\<rparr> \<and>
   unconvert_box float64_dtype [f64 10, f64 20, f64 15, f64 28]
     = [f64 10, f64 20, f64 5, f64 8] \<and>
   dt_sub int64_dtype (dt_add int64_dtype 10 5) 10 = 5 \<and>
   dt_sub float64_dtype (dt_add float64_dtype (f64 10) (f64 5)) (f64 10) = f64 5"
proof -
  let ?rows = "group_rows id None ''.png'' ''p1.png'' boxes_table"
  let ?r = "\<lparr>rindex = 0, rid = ''p1'', rtarget = ''opacity'',
             rcols = box_cols (f64 10) (f64 20) (f64 5) (f64 8)\<rparr>"
  have n: "\<not> any_nan float64_dtype
       (map (\<lambda>r. corners float64_dtype (row_box bbox_names r)) ?rows)"
    by (simp only: p1_corners) (simp add: any_nan_def f64_ne_self)
  have t: "torch_tensor_int (Series (group_series (bbox_class_to_idx boxes_dataset) ?rows))
      = Inr [1, 1]"
    by (simp only: p1_series) (simp add: store_int32_def)
  have ix: "map rindex ?rows = [0, 3]"
    by (simp add: boxes_dataset_groups)
  have m: "?r \<in> set ?rows"
    by (simp add: boxes_dataset_groups)
  note th = getitem_converts_boxes [OF boxes_dataset_plain p1_id p1_loads n]
  from th [THEN conjunct2, THEN conjunct1, rule_format, of "[1, 1]", OF conjI [OF refl t]]
  have g: "ImageBboxWithPandas_getitem float64_dtype boxes_dataset 0 =
     Inr \<lparr>out_image = ''p1.png'', out_labels = [1, 1],
          out_boxes = Boxes [[f64 10, f64 20, f64 15, f64 28], [f64 3, f64 4, f64 4, f64 5]]\<rparr>"
    by (simp only: p1_corners)
  from th [THEN conjunct2, THEN conjunct2, THEN conjunct1, rule_format, OF m]
  have u: "unconvert_box float64_dtype [f64 10, f64 20, f64 15, f64 28]
     = [f64 10, f64 20, f64 5, f64 8]"
    by (simp add: box_cols_row f64_small_sums)
  from th [THEN conjunct2, THEN conjunct2, THEN conjunct2, THEN conjunct1, rule_format,
      of 10 5]
  have w: "dt_sub int64_dtype (dt_add int64_dtype 10 5) 10 = 5" .
  have "\<bar>10 :: int\<bar> < 2 ^ 52 \<and> \<bar>5 :: int\<bar> < 2 ^ 52"
    by simp
  from th [THEN conjunct2, THEN conjunct2, THEN conjunct2, THEN conjunct2, rule_format,
      OF this, THEN conjunct2]
  have f: "dt_sub float64_dtype (dt_add float64_dtype (f64 10) (f64 5)) (f64 10) = f64 5" .
  from boxes_dataset_plain p1_id p1_loads p1_rows ix n g u w f show ?thesis
    by (intro conjI)
qed

theorem getitem_converts_boxes_counterexample:
  "ImageBboxWithPandas id wide_table bbox_names None (Some ''.png'') None None path_loader
     = Inr wide_dataset \<and>
   pow53 = 2 ^ 53 \<and>
   map (row_box bbox_names) (group_rows id None ''.png'' ''w.png'' wide_table)
     = [[f64 pow53, f64 0, f64 1, f64 0]] \<and>
   ImageBboxWithPandas_getitem float64_dtype wide_dataset 0 =
     Inr \<lparr>out_image = ''w.png'', out_labels = [0],
          out_boxes = Boxes [[f64 pow53, f64 0, f64 pow53, f64 0]]\<rparr> \<and>
   f64 pow53 \<noteq> f64 (pow53 + 1) \<and>
   unconvert_box float64_dtype [f64 pow53, f64 0, f64 pow53, f64 0]
     = [f64 pow53, f64 0, f64 0, f64 0] \<and>
   [f64 pow53, f64 0, f64 0, f64 0] \<noteq> [f64 pow53, f64 0, f64 1, f64 0]"
proof -
  let ?rows = "group_rows id None ''.png'' ''w.png'' wide_table"
  have n: "\<not> any_nan float64_dtype
       (map (\<lambda>r. corners float64_dtype (row_box bbox_names r)) ?rows)"
    by (simp only: wide_corners) (simp add: any_nan_def f64_ne_self)
  have t: "torch_tensor_int (Series (group_series (bbox_class_to_idx wide_dataset) ?rows))
      = Inr [0]"
    by (simp only: wide_series) (simp add: store_int32_def)
  from getitem_unfold [OF wide_dataset_constructed wide_id wide_loads, of float64_dtype] n
  have "ImageBboxWithPandas_getitem float64_dtype wide_dataset 0 =
      to_tensors \<lparr>image = ''w.png'',
        bboxes = map (\<lambda>r. corners float64_dtype (row_box bbox_names r)) ?rows,
        labels = Series (group_series (bbox_class_to_idx wide_dataset) ?rows)\<rparr>"
    by (simp add: apply_transforms_def)
  then have g: "ImageBboxWithPandas_getitem float64_dtype wide_dataset 0 =
     Inr \<lparr>out_image = ''w.png'', out_labels = [0],
          out_boxes = Boxes [[f64 pow53, f64 0, f64 pow53, f64 0]]\<rparr>"
    by (simp only: to_tensors_def package.select_convs t sum.case wide_corners) simp
  have d: "f64 pow53 \<noteq> f64 (pow53 + 1)"
    by (simp add: f64_inj)
  have e: "[f64 pow53, f64 0, f64 0, f64 0] \<noteq> [f64 pow53, f64 0, f64 1, f64 0]"
    by (simp add: f64_inj)
  from wide_dataset_constructed pow53_def wide_rows g d wide_unconvert e show ?thesis
    by (intro conjI)
qed

text \<open>
  Claim C5. When \<^verbatim>\<open>split_with_count\<close> returns, it returns one data set per distinct
  per-id row count of the table, in order of first appearance of the counts. The data
  set of a count is the one the constructor builds from exactly the rows whose id has
  that count, in table order; every row of the table is in the rows of exactly one of
  them, and together they are the rows of the table. The rows are those of the merged
  frame: the table's rows, each with the index label \<open>0, 1, ...\<close> of its position, which
  is what \<^verbatim>\<open>pd.merge\<close> leaves. The length of each data set is the number of distinct
  resolved ids among its rows, which without a root directory is the number of distinct
  ids among them.
\<close>

theorem split_with_count_partition:
  assumes "split_with_count userhome df lb root_arg (Some ext) c2i_arg tr ld = Inr dss"
  shows "length dss = card ((\<lambda>r. count_of df (rid r)) ` set df) \<and>
     length dss = length (counts_observed df) \<and>
     distinct (counts_observed df) \<and>
     set (counts_observed df) = (\<lambda>r. count_of df (rid r)) ` set df \<and>
     (\<forall>i < length dss.
        ImageBboxWithPandas userhome (bucket df (counts_observed df ! i)) lb root_arg (Some ext)
          c2i_arg tr ld = Inr (dss ! i) \<and>
        bbox_samples (dss ! i) =
          map (prepared_row userhome root_arg ext (bbox_class_to_idx (dss ! i)))
            (bucket df (counts_observed df ! i)) \<and>
        ImageBboxWithPandas_len (dss ! i) =
          card ((\<lambda>r. resolved_id userhome root_arg ext (rid r)) `
                  set (bucket df (counts_observed df ! i))) \<and>
        (root_arg = None \<or>
         (\<forall>r \<in> set (bucket df (counts_observed df ! i)). \<not> startswith (rid r) ''/'') \<longrightarrow>
           ImageBboxWithPandas_len (dss ! i) =
             card (rid ` set (bucket df (counts_observed df ! i))))) \<and>
     (\<forall>r \<in> set (reset_index df).
        \<exists>!i. i < length dss \<and> r \<in> set (bucket df (counts_observed df ! i))) \<and>
     mset (concat (map (bucket df) (counts_observed df))) = mset (reset_index df) \<and>
     length (reset_index df) = length df \<and>
     (\<forall>j < length df. reset_index df ! j = (df ! j)\<lparr>rindex := int j\<rparr>)"
proof -
  let ?ns = "counts_observed df"
  from assms have all2: "list_all2
      (\<lambda>n ds. ImageBboxWithPandas userhome (bucket df n) lb root_arg (Some ext) c2i_arg tr ld = Inr ds)
      ?ns dss"
    unfolding split_with_count_unfold by (rule traverse_Inr)
  then have len: "length dss = length ?ns"
    by (simp add: list_all2_lengthD)
  have card: "length dss = card ((\<lambda>r. count_of df (rid r)) ` set df)"
    using len by (simp add: counts_observed_props)
  have each: "\<forall>i < length dss.
        ImageBboxWithPandas userhome (bucket df (?ns ! i)) lb root_arg (Some ext)
          c2i_arg tr ld = Inr (dss ! i) \<and>
        bbox_samples (dss ! i) =
          map (prepared_row userhome root_arg ext (bbox_class_to_idx (dss ! i)))
            (bucket df (?ns ! i)) \<and>
        ImageBboxWithPandas_len (dss ! i) =
          card ((\<lambda>r. resolved_id userhome root_arg ext (rid r)) ` set (bucket df (?ns ! i))) \<and>
        (root_arg = None \<or> (\<forall>r \<in> set (bucket df (?ns ! i)). \<not> startswith (rid r) ''/'') \<longrightarrow>
           ImageBboxWithPandas_len (dss ! i) = card (rid ` set (bucket df (?ns ! i))))"
  proof (intro allI impI)
    fix i assume i: "i < length dss"
    from list_all2_nthD2 [OF all2 i]
    have c: "ImageBboxWithPandas userhome (bucket df (?ns ! i)) lb root_arg (Some ext)
          c2i_arg tr ld = Inr (dss ! i)" .
    from ImageBboxWithPandas_Inr [OF c]
    have s: "bbox_samples (dss ! i) =
          map (prepared_row userhome root_arg ext (bbox_class_to_idx (dss ! i))) (bucket df (?ns ! i))"
      and ids: "bbox_ids (dss ! i) = drop_duplicates
          (map (\<lambda>r. resolved_id userhome root_arg ext (rid r)) (bucket df (?ns ! i)))"
      by auto
    from ids have l: "ImageBboxWithPandas_len (dss ! i) =
          card ((\<lambda>r. resolved_id userhome root_arg ext (rid r)) ` set (bucket df (?ns ! i)))"
      by (simp add: ImageBboxWithPandas_len_def length_drop_duplicates)
    from ImageBboxWithPandas_Inr [OF c] have dot: "startswith ext ''.''" by blast
    have "root_arg = None \<or> (\<forall>r \<in> set (bucket df (?ns ! i)). \<not> startswith (rid r) ''/'') \<longrightarrow>
           ImageBboxWithPandas_len (dss ! i) = card (rid ` set (bucket df (?ns ! i)))"
      using l card_resolved_no_root [of userhome ext "set (bucket df (?ns ! i))"]
        card_resolved_relative [OF dot, of "set (bucket df (?ns ! i))" userhome root_arg]
      by auto
    with c s l show "ImageBboxWithPandas userhome (bucket df (?ns ! i)) lb root_arg (Some ext)
          c2i_arg tr ld = Inr (dss ! i) \<and>
        bbox_samples (dss ! i) =
          map (prepared_row userhome root_arg ext (bbox_class_to_idx (dss ! i)))
            (bucket df (?ns ! i)) \<and>
        ImageBboxWithPandas_len (dss ! i) =
          card ((\<lambda>r. resolved_id userhome root_arg ext (rid r)) ` set (bucket df (?ns ! i))) \<and>
        (root_arg = None \<or> (\<forall>r \<in> set (bucket df (?ns ! i)). \<not> startswith (rid r) ''/'') \<longrightarrow>
           ImageBboxWithPandas_len (dss ! i) = card (rid ` set (bucket df (?ns ! i))))"
      by (intro conjI)
  qed
  have uniq: "\<forall>r \<in> set (reset_index df).
      \<exists>!i. i < length dss \<and> r \<in> set (bucket df (?ns ! i))"
    using bucket_unique [of _ df] len by simp
  have nth: "\<forall>j < length df. reset_index df ! j = (df ! j)\<lparr>rindex := int j\<rparr>"
    by (simp add: nth_reset_index)
  from card len counts_observed_props(1,2) [of df] each uniq buckets_partition [of df]
    length_reset_index [of df] nth
  show ?thesis by (intro conjI)
qed

text \<open>
  The spec's example: images with 1, 1, 2, 3, 3 and 3 rows give three data sets, of
  lengths 2, 1 and 3.
\<close>

theorem split_with_count_partition_witness:
  "\<exists>dss. split_with_count id counts_table bbox_names None (Some ''.png'') None None path_loader
       = Inr dss \<and>
     length dss = 3 \<and>
     map ImageBboxWithPandas_len dss = [2, 1, 3] \<and>
     mset (concat (map (bucket counts_table) (counts_observed counts_table))) = mset counts_table"
proof -
  have idem: "reset_index counts_table = counts_table"
    by (simp add: counts_table_def reset_index_def)
  have h2: "startswith ''.png'' ''.''" and h4: "length bbox_names = 4"
    by (simp_all add: startswith_def bbox_names_def)
  from split_with_count_ok [OF h2 h4, of id counts_table None None path_loader]
  obtain dss :: "(string, float64) image_bbox_with_pandas list" where
    S: "split_with_count id counts_table bbox_names None (Some ''.png'') None None path_loader
       = Inr dss"
    by (elim exE)
  note P = split_with_count_partition [OF S]
  note P2 = P [THEN conjunct2, THEN conjunct1]
  note P5 = P [THEN conjunct2, THEN conjunct2, THEN conjunct2, THEN conjunct2, THEN conjunct1]
  note m = P [THEN conjunct2, THEN conjunct2, THEN conjunct2, THEN conjunct2, THEN conjunct2,
              THEN conjunct2, THEN conjunct1, unfolded idem]
  from P2 have len: "length dss = 3"
    by (simp add: counts_table_counts)
  then obtain d0 d1 d2 where dss: "dss = [d0, d1, d2]" by (rule length_3E)
  have each: "ImageBboxWithPandas_len (dss ! i) =
      card (rid ` set (bucket counts_table (counts_observed counts_table ! i)))"
    if "i < length dss" for i
    using P5 [rule_format, OF that, THEN conjunct2, THEN conjunct2, THEN conjunct2] by simp
  have n: "counts_observed counts_table ! 0 = Suc 0" "counts_observed counts_table ! 1 = 2"
    "counts_observed counts_table ! 2 = 3"
    by (simp_all add: counts_table_counts)
  have c: "card (rid ` set (bucket counts_table (counts_observed counts_table ! 0))) = 2"
    "card (rid ` set (bucket counts_table (counts_observed counts_table ! 1))) = 1"
    "card (rid ` set (bucket counts_table (counts_observed counts_table ! 2))) = 3"
    unfolding n card_image_list counts_table_buckets by simp_all
  have i: "0 < length dss" "1 < length dss" "2 < length dss"
    by (simp_all add: len)
  have "ImageBboxWithPandas_len (dss ! 0) = 2"
    using each [OF i(1)] c(1) by (rule trans)
  moreover have "ImageBboxWithPandas_len (dss ! 1) = 1"
    using each [OF i(2)] c(2) by (rule trans)
  moreover have "ImageBboxWithPandas_len (dss ! 2) = 3"
    using each [OF i(3)] c(3) by (rule trans)
  ultimately have lens: "map ImageBboxWithPandas_len dss = [2, 1, 3]"
    by (simp add: dss)
  from S len lens m show ?thesis by (intro exI conjI)
qed


text \<open>
  Ids are counted as the table has them and deduplicated as resolved: under the root
  \<open>/data\<close> the ids \<open>a\<close> and \<open>/data/a\<close> are two ids of one row each and one image in
  the data set of their bucket.
\<close>

lemma split_with_count_absolute_ids:
  "\<exists>dss. split_with_count id absolute_ids_table bbox_names (Some ''/data'') (Some ''.png'')
       None None path_loader = Inr dss \<and>
     map bbox_ids dss = [[''/data/a.png'']] \<and>
     counts_observed absolute_ids_table = [1] \<and>
     map rid (bucket absolute_ids_table 1) = [''a'', ''/data/a'']"
proof -
  have tab: "absolute_ids_table =
      [count_row ''a'', (count_row ''/data/a'')\<lparr>rindex := 1\<rparr>]"
    by (simp add: absolute_ids_table_def reset_index_def count_row_def)
  have h2: "startswith ''.png'' ''.''" and h4: "length bbox_names = 4"
    by (simp_all add: startswith_def bbox_names_def)
  have ok: "\<forall>r \<in> set absolute_ids_table.
      map_of (chosen_dict None (map rtarget absolute_ids_table)) (rtarget r) \<noteq> None"
    using chosen_dict_None_defined by blast
  have ids: "drop_duplicates (map (\<lambda>r. resolved_id id (Some ''/data'') ''.png'' (rid r))
      absolute_ids_table) = [''/data/a.png'']"
    by (simp add: tab count_row_def resolved_id_def resolve_id_def
        expanduser_def startswith_def endswith_def path_join_def str_or_def)
  have "split_with_count id absolute_ids_table bbox_names (Some ''/data'') (Some ''.png'')
       None None path_loader
     = Inr [\<lparr>bbox_samples = map (prepared_row id (Some ''/data'') ''.png''
                (chosen_dict None (map rtarget absolute_ids_table))) absolute_ids_table,
          bbox_ids = [''/data/a.png''],
          label_bbox = bbox_names,
          bbox_class_to_idx = chosen_dict None (map rtarget absolute_ids_table),
          bbox_num_classes = dict_len (chosen_dict None (map rtarget absolute_ids_table)),
          transforms = None, loader = path_loader\<rparr>]"
    unfolding split_with_count_unfold absolute_ids_counts
    by (simp add: absolute_ids_bucket ImageBboxWithPandas_ok [OF h2 h4 ok] ids)
  moreover have "map rid (bucket absolute_ids_table 1) = [''a'', ''/data/a'']"
    by (simp add: absolute_ids_bucket) (simp add: tab count_row_def)
  ultimately show ?thesis
    by (simp add: absolute_ids_counts)
qed


end
